theory Spec2Isabelle
  imports Complex_Main
begin

section \<open>The tabulated piecewise-linear two-phase material law\<close>

text \<open>
  A shallow embedding of the class \<open>Opm::PiecewiseLinearTwoPhaseMaterial\<close> and of the
  traits class \<open>Opm::TwoPhaseMaterialTraits\<close> it is instantiated with.

  Conventions of the embedding:
  \<^item> \<open>Scalar\<close> is a template parameter of the traits class, documented there as the type
    of scalar floating-point values. A finite scalar is modelled by a real number.
    Comparisons of finite scalars are exact in floating point, so the segment search,
    the clamping branches and the assertions are the same in exact and in rounded
    arithmetic. The arithmetic of \<open>eval_\<close> and \<open>evalDeriv_\<close> is embedded twice.
    \<open>eval_fn\<close> and \<open>evalDeriv_fn\<close> compute in exact arithmetic: they give the values of
    the source where its operations do not round, and are what the material law below
    is built on. \<open>eval_rounded\<close> and \<open>evalDeriv_rounded\<close> take the rounding of the scalar
    type as a parameter and round the result of every operation; \<open>fl64\<close> is the rounding
    of \<open>double\<close> (IEEE 754 binary64, to nearest, ties to even).
  \<^item> Division in the exact embedding is HOL's total division; the theorems that depend
    on the value of a quotient assume knots with strictly increasing abscissae, where
    no segment has width zero. In the rounded embedding a division by zero has no
    finite result.
  \<^item> The C++ \<open>int\<close> of the segment indices is modelled by the unbounded integers. The
    indices of the source stay within \<open>0 .. size - 1\<close> and \<open>lowIdx + highIdx\<close> stays below
    \<open>2 * size\<close>, so no \<open>int\<close> overflows for a table of fewer than \<open>2\<^sup>3\<^sup>0\<close> points. The sums
    that are divided by two are non-negative, where the truncating division of C++ is
    the flooring \<open>div\<close> of HOL.
  \<^item> An exception thrown by \<open>OPM_THROW\<close>, a failed \<open>assert\<close> (the debug build is
    modelled, where assertions are checked) and an access outside a table are values
    of the type \<open>error\<close>; a function that can fail returns \<open>error + 'a\<close>.
  \<^item> A function that fills an output container takes the container and returns the
    updated one.
  \<^item> The private member functions \<open>eval_\<close>, \<open>evalDeriv_\<close> and \<open>findSegmentIndex_\<close> are
    named \<open>eval_fn\<close>, \<open>evalDeriv_fn\<close> and \<open>findSegmentIndex_fn\<close>, since a name may not
    end with an underscore here.
\<close>

subsection \<open>Data\<close>

datatype error =
    Logic_Error string
  | Assertion_Failure string
  | Out_Of_Bounds int

text \<open>
  A finite value of the scalar type, as the real number it denotes. What the operations
  on scalars return is the subject of the two embeddings of the arithmetic below.
\<close>

type_synonym Scalar = real

type_synonym SamplePoints = "(Scalar \<times> Scalar) list"

text \<open>
  Modelled from the spec: the parameter class \<open>PiecewiseLinearTwoPhaseMaterialParams\<close>
  is not among the sources. The law reads three sample tables from it, through the
  accessors \<open>pcnwSamples()\<close>, \<open>krwSamples()\<close> and \<open>krnSamples()\<close>.
\<close>

record Params =
  pcnwSamples :: SamplePoints
  krwSamples :: SamplePoints
  krnSamples :: SamplePoints

text \<open>
  \<open>TwoPhaseMaterialTraits\<close>: the two phase indices are template arguments, checked by
  \<open>static_assert\<close> to lie in \<open>0 .. numPhases - 1\<close> and to differ.
\<close>

record Traits =
  wPhaseIdx :: nat
  nPhaseIdx :: nat

definition numPhases :: nat where
  "numPhases = 2"

definition Traits_ok :: "Traits \<Rightarrow> bool" where
  "Traits_ok t =
     (wPhaseIdx t < numPhases \<and> nPhaseIdx t < numPhases \<and> wPhaseIdx t \<noteq> nPhaseIdx t)"

text \<open>
  The fluid state is a template parameter; the law only calls its accessor
  \<open>saturation(phaseIdx)\<close>.
\<close>

record FluidState =
  saturation :: "nat \<Rightarrow> Scalar"

type_synonym Container = "Scalar list"

subsection \<open>Access to a table\<close>

text \<open>\<open>samples[i]\<close>, \<open>samples.front()\<close> and \<open>samples.back()\<close>.\<close>

definition at_idx :: "SamplePoints \<Rightarrow> int \<Rightarrow> error + (Scalar \<times> Scalar)" where
  "at_idx samples i =
     (if 0 \<le> i \<and> i < int (length samples) then Inr (samples ! nat i)
      else Inl (Out_Of_Bounds i))"

definition front_of :: "SamplePoints \<Rightarrow> error + (Scalar \<times> Scalar)" where
  "front_of samples = (case samples of [] \<Rightarrow> Inl (Out_Of_Bounds 0) | p # _ \<Rightarrow> Inr p)"

definition back_of :: "SamplePoints \<Rightarrow> error + (Scalar \<times> Scalar)" where
  "back_of samples =
     (if samples = [] then Inl (Out_Of_Bounds (- 1)) else Inr (last samples))"

subsection \<open>The evaluator\<close>

text \<open>The \<open>while\<close> loop of \<open>findSegmentIndex_\<close>, on its two loop variables.\<close>

function bisection :: "SamplePoints \<Rightarrow> Scalar \<Rightarrow> int \<Rightarrow> int \<Rightarrow> error + int" where
  "bisection samples x lowIdx highIdx =
     (if lowIdx + 1 < highIdx then
        (let curIdx = (lowIdx + highIdx) div 2 in
         case at_idx samples curIdx of
           Inl e \<Rightarrow> Inl e
         | Inr p \<Rightarrow>
             if fst p < x then bisection samples x curIdx highIdx
             else bisection samples x lowIdx curIdx)
      else Inr lowIdx)"
  by pat_completeness auto
termination
  by (relation "measure (\<lambda>(samples, x, lowIdx, highIdx). nat (highIdx - lowIdx))") auto

declare bisection.simps [simp del]

definition findSegmentIndex_fn :: "SamplePoints \<Rightarrow> Scalar \<Rightarrow> error + int" where
  "findSegmentIndex_fn samples x =
     (let n = int (length samples) - 1 in
      if \<not> n \<ge> 1 then Inl (Assertion_Failure ''n >= 1'')
      else
        (case at_idx samples n of
           Inl e \<Rightarrow> Inl e
         | Inr pn \<Rightarrow>
             if fst pn < x then Inr (n - 1)
             else
               (case at_idx samples 0 of
                  Inl e \<Rightarrow> Inl e
                | Inr p0 \<Rightarrow>
                    if fst p0 > x then Inr 0
                    else bisection samples x 0 n)))"

definition eval_fn :: "SamplePoints \<Rightarrow> Scalar \<Rightarrow> error + Scalar" where
  "eval_fn samples x =
     (case findSegmentIndex_fn samples x of
        Inl e \<Rightarrow> Inl e
      | Inr segIdx \<Rightarrow>
     (case front_of samples of
        Inl e \<Rightarrow> Inl e
      | Inr f \<Rightarrow>
     (case back_of samples of
        Inl e \<Rightarrow> Inl e
      | Inr b \<Rightarrow>
     (case at_idx samples segIdx of
        Inl e \<Rightarrow> Inl e
      | Inr p0 \<Rightarrow>
     (case at_idx samples (segIdx + 1) of
        Inl e \<Rightarrow> Inl e
      | Inr p1 \<Rightarrow>
          if x \<ge> fst f \<and> x \<le> fst b \<and> \<not> fst p0 \<le> x
          then Inl (Assertion_Failure ''samples[segIdx].first <= x'')
          else if x \<ge> fst f \<and> x \<le> fst b \<and> \<not> fst p1 \<ge> x
          then Inl (Assertion_Failure ''samples[segIdx + 1].first >= x'')
          else
            (let alpha = (x - fst p0) / (fst p1 - fst p0)
             in Inr (snd p0 + (snd p1 - snd p0) * alpha)))))))"

definition evalDeriv_fn :: "SamplePoints \<Rightarrow> Scalar \<Rightarrow> error + Scalar" where
  "evalDeriv_fn samples x =
     (case findSegmentIndex_fn samples x of
        Inl e \<Rightarrow> Inl e
      | Inr segIdx \<Rightarrow>
     (case at_idx samples (segIdx + 1) of
        Inl e \<Rightarrow> Inl e
      | Inr p1 \<Rightarrow>
     (case at_idx samples segIdx of
        Inl e \<Rightarrow> Inl e
      | Inr p0 \<Rightarrow> Inr ((snd p1 - snd p0) / (fst p1 - fst p0)))))"

subsection \<open>The evaluator in rounded arithmetic\<close>

text \<open>The number of binary digits of a positive integer.\<close>

function bit_length :: "int \<Rightarrow> int" where
  "bit_length n = (if n \<le> 0 then 0 else 1 + bit_length (n div 2))"
  by pat_completeness auto
termination
  by (relation "measure nat") auto

declare bit_length.simps [simp del]

text \<open>
  The exponent \<open>e\<close> with \<open>2\<^sup>e \<le> |x| < 2\<^sup>e\<^sup>+\<^sup>1\<close> of a real \<open>x \<noteq> 0\<close>, and the powers of two with an
  integer exponent.
\<close>

definition binade :: "real \<Rightarrow> int" where
  "binade x =
     (if 1 \<le> \<bar>x\<bar> then bit_length \<lfloor>\<bar>x\<bar>\<rfloor> - 1 else - bit_length (\<lceil>1 / \<bar>x\<bar>\<rceil> - 1))"

definition pow2 :: "int \<Rightarrow> real" where
  "pow2 e = (if 0 \<le> e then 2 ^ nat e else 1 / 2 ^ nat (- e))"

text \<open>The nearest integer, the even one of the two when \<open>r\<close> lies half way.\<close>

definition round_half_even :: "real \<Rightarrow> int" where
  "round_half_even r =
     (let f = \<lfloor>r\<rfloor> in
      if r - of_int f < 1/2 then f
      else if 1/2 < r - of_int f then f + 1
      else if even f then f else f + 1)"

text \<open>
  The rounding of \<open>double\<close>. A result is rounded to the nearest multiple of the quantum
  of its binade, \<open>2\<^sup>e\<^sup>-\<^sup>5\<^sup>2\<close>, and of \<open>2\<^sup>-\<^sup>1\<^sup>0\<^sup>7\<^sup>4\<close> below the normal range. A result that rounds
  to \<open>2\<^sup>1\<^sup>0\<^sup>2\<^sup>4\<close> or beyond overflows: it is not a finite scalar, and the rounding is \<open>None\<close>.
\<close>

definition fl64 :: "real \<Rightarrow> real option" where
  "fl64 x =
     (if x = 0 then Some 0
      else
        (let q = pow2 (max (binade x) (- 1022) - 52);
             r = of_int (round_half_even (x / q)) * q
         in if 2 ^ 1024 \<le> \<bar>r\<bar> then None else Some r))"

text \<open>
  A rounding maps the exact result of an operation on finite scalars to the scalar that
  the operation returns, or to \<open>None\<close> when that is not finite. \<open>Some\<close> is the rounding of
  exact arithmetic.
\<close>

type_synonym rounding = "real \<Rightarrow> real option"

text \<open>
  The expressions that \<open>evalDeriv_\<close> and \<open>eval_\<close> return, for the two points \<open>p0\<close> and \<open>p1\<close>
  of the selected segment, with every operation rounded. The result is \<open>None\<close> when an
  operation has no finite result (an overflow, or a division by zero): the source then
  computes with infinities or NaN, which are not modelled.
\<close>

definition slope_rounded ::
  "rounding \<Rightarrow> Scalar \<times> Scalar \<Rightarrow> Scalar \<times> Scalar \<Rightarrow> Scalar option" where
  "slope_rounded rnd p0 p1 =
     (case rnd (snd p1 - snd p0) of
        None \<Rightarrow> None
      | Some dy \<Rightarrow>
     (case rnd (fst p1 - fst p0) of
        None \<Rightarrow> None
      | Some dx \<Rightarrow> if dx = 0 then None else rnd (dy / dx)))"

definition interpolate_rounded ::
  "rounding \<Rightarrow> Scalar \<Rightarrow> Scalar \<times> Scalar \<Rightarrow> Scalar \<times> Scalar \<Rightarrow> Scalar option" where
  "interpolate_rounded rnd x p0 p1 =
     (case rnd (x - fst p0) of
        None \<Rightarrow> None
      | Some num \<Rightarrow>
     (case rnd (fst p1 - fst p0) of
        None \<Rightarrow> None
      | Some den \<Rightarrow>
          if den = 0 then None
          else
     (case rnd (num / den) of
        None \<Rightarrow> None
      | Some alpha \<Rightarrow>
     (case rnd (snd p1 - snd p0) of
        None \<Rightarrow> None
      | Some dy \<Rightarrow>
     (case rnd (dy * alpha) of
        None \<Rightarrow> None
      | Some t \<Rightarrow> rnd (snd p0 + t))))))"

text \<open>
  \<open>eval_\<close> and \<open>evalDeriv_\<close> with rounded arithmetic. The segment search, the reads and the
  assertions are those of \<open>eval_fn\<close> and \<open>evalDeriv_fn\<close>.
\<close>

definition eval_rounded :: "rounding \<Rightarrow> SamplePoints \<Rightarrow> Scalar \<Rightarrow> (error + Scalar) option" where
  "eval_rounded rnd samples x =
     (case findSegmentIndex_fn samples x of
        Inl e \<Rightarrow> Some (Inl e)
      | Inr segIdx \<Rightarrow>
     (case front_of samples of
        Inl e \<Rightarrow> Some (Inl e)
      | Inr f \<Rightarrow>
     (case back_of samples of
        Inl e \<Rightarrow> Some (Inl e)
      | Inr b \<Rightarrow>
     (case at_idx samples segIdx of
        Inl e \<Rightarrow> Some (Inl e)
      | Inr p0 \<Rightarrow>
     (case at_idx samples (segIdx + 1) of
        Inl e \<Rightarrow> Some (Inl e)
      | Inr p1 \<Rightarrow>
          if x \<ge> fst f \<and> x \<le> fst b \<and> \<not> fst p0 \<le> x
          then Some (Inl (Assertion_Failure ''samples[segIdx].first <= x''))
          else if x \<ge> fst f \<and> x \<le> fst b \<and> \<not> fst p1 \<ge> x
          then Some (Inl (Assertion_Failure ''samples[segIdx + 1].first >= x''))
          else map_option Inr (interpolate_rounded rnd x p0 p1))))))"

definition evalDeriv_rounded ::
  "rounding \<Rightarrow> SamplePoints \<Rightarrow> Scalar \<Rightarrow> (error + Scalar) option" where
  "evalDeriv_rounded rnd samples x =
     (case findSegmentIndex_fn samples x of
        Inl e \<Rightarrow> Some (Inl e)
      | Inr segIdx \<Rightarrow>
     (case at_idx samples (segIdx + 1) of
        Inl e \<Rightarrow> Some (Inl e)
      | Inr p1 \<Rightarrow>
     (case at_idx samples segIdx of
        Inl e \<Rightarrow> Some (Inl e)
      | Inr p0 \<Rightarrow> map_option Inr (slope_rounded rnd p0 p1))))"

subsection \<open>The two-phase saturation API\<close>

definition twoPhaseSatPcnw :: "Params \<Rightarrow> Scalar \<Rightarrow> error + Scalar" where
  "twoPhaseSatPcnw params sw = evalDeriv_fn (pcnwSamples params) sw"

definition pcnw :: "Traits \<Rightarrow> Params \<Rightarrow> FluidState \<Rightarrow> error + Scalar" where
  "pcnw t params fs = (let sw = saturation fs (wPhaseIdx t) in twoPhaseSatPcnw params sw)"

definition Sw :: "Params \<Rightarrow> FluidState \<Rightarrow> error + Scalar" where
  "Sw params fs = Inl (Logic_Error ''Not implemented: Sw()'')"

definition twoPhaseSatSw :: "Params \<Rightarrow> Scalar \<Rightarrow> error + Scalar" where
  "twoPhaseSatSw params pC = Inl (Logic_Error ''Not implemented: twoPhaseSatSw()'')"

definition Sn :: "Params \<Rightarrow> FluidState \<Rightarrow> error + Scalar" where
  "Sn params fs = (case Sw params fs of Inl e \<Rightarrow> Inl e | Inr s \<Rightarrow> Inr (1 - s))"

definition twoPhaseSatSn :: "Params \<Rightarrow> Scalar \<Rightarrow> error + Scalar" where
  "twoPhaseSatSn params pC =
     (case twoPhaseSatSw params pC of Inl e \<Rightarrow> Inl e | Inr s \<Rightarrow> Inr (1 - s))"

definition twoPhaseSatDPcnw_dSw :: "Params \<Rightarrow> Scalar \<Rightarrow> error + Scalar" where
  "twoPhaseSatDPcnw_dSw params sw =
     (if \<not> (0 < sw \<and> sw < 1) then Inl (Assertion_Failure ''0 < Sw && Sw < 1'')
      else evalDeriv_fn (pcnwSamples params) sw)"

definition dPcnw_dSw :: "Traits \<Rightarrow> Params \<Rightarrow> FluidState \<Rightarrow> error + Scalar" where
  "dPcnw_dSw t params fs = twoPhaseSatDPcnw_dSw params (saturation fs (wPhaseIdx t))"

definition twoPhaseSatKrw :: "Params \<Rightarrow> Scalar \<Rightarrow> error + Scalar" where
  "twoPhaseSatKrw params sw =
     (case front_of (krwSamples params) of
        Inl e \<Rightarrow> Inl e
      | Inr f \<Rightarrow>
          if sw < fst f then Inr (snd f)
          else
            (case back_of (krwSamples params) of
               Inl e \<Rightarrow> Inl e
             | Inr b \<Rightarrow>
                 if sw > fst b then Inr (snd b)
                 else eval_fn (krwSamples params) sw))"

definition krw :: "Traits \<Rightarrow> Params \<Rightarrow> FluidState \<Rightarrow> error + Scalar" where
  "krw t params fs = twoPhaseSatKrw params (saturation fs (wPhaseIdx t))"

definition twoPhaseSatDKrw_dSw :: "Params \<Rightarrow> Scalar \<Rightarrow> error + Scalar" where
  "twoPhaseSatDKrw_dSw params sw =
     (case front_of (krwSamples params) of
        Inl e \<Rightarrow> Inl e
      | Inr f \<Rightarrow>
          if sw < fst f then Inr 0
          else
            (case back_of (krwSamples params) of
               Inl e \<Rightarrow> Inl e
             | Inr b \<Rightarrow>
                 if sw > fst b then Inr 0
                 else evalDeriv_fn (krwSamples params) sw))"

definition twoPhaseSatKrn :: "Params \<Rightarrow> Scalar \<Rightarrow> error + Scalar" where
  "twoPhaseSatKrn params sw =
     (case front_of (krnSamples params) of
        Inl e \<Rightarrow> Inl e
      | Inr f \<Rightarrow>
          if sw < fst f then Inr (snd f)
          else
            (case back_of (krnSamples params) of
               Inl e \<Rightarrow> Inl e
             | Inr b \<Rightarrow>
                 if sw > fst b then Inr (snd b)
                 else eval_fn (krnSamples params) sw))"

definition krn :: "Traits \<Rightarrow> Params \<Rightarrow> FluidState \<Rightarrow> error + Scalar" where
  "krn t params fs = twoPhaseSatKrn params (1 - saturation fs (nPhaseIdx t))"

definition twoPhaseSatDKrn_dSw :: "Params \<Rightarrow> Scalar \<Rightarrow> error + Scalar" where
  "twoPhaseSatDKrn_dSw params sw =
     (case front_of (krwSamples params) of
        Inl e \<Rightarrow> Inl e
      | Inr f \<Rightarrow>
          if sw < fst f then Inr 0
          else
            (case back_of (krwSamples params) of
               Inl e \<Rightarrow> Inl e
             | Inr b \<Rightarrow>
                 if sw > fst b then Inr 0
                 else evalDeriv_fn (krnSamples params) sw))"

text \<open>
  The overloads \<open>dKrw_dSw\<close> and \<open>dKrn_dSw\<close> on a state call \<open>twoPhaseSatDkrw_dSw\<close> and
  \<open>twoPhaseSatDkrn_dSw\<close>, names that the class does not declare; they are not modelled.
\<close>

subsection \<open>The functions that fill an output container\<close>

text \<open>
  The output container is indexed by the phase indices of the traits. It is a list; the
  properties below are stated for a container of \<open>numPhases\<close> entries and valid traits,
  where every write of the source is inside the container.
\<close>

definition capillaryPressures ::
  "Traits \<Rightarrow> Container \<Rightarrow> Params \<Rightarrow> FluidState \<Rightarrow> error + Container" where
  "capillaryPressures t values params fs =
     (let values1 = values[wPhaseIdx t := 0] in
      case pcnw t params fs of
        Inl e \<Rightarrow> Inl e
      | Inr v \<Rightarrow> Inr (values1[nPhaseIdx t := v]))"

definition saturations ::
  "Traits \<Rightarrow> Container \<Rightarrow> Params \<Rightarrow> FluidState \<Rightarrow> error + Container" where
  "saturations t values params fs = Inl (Logic_Error ''Not implemented: saturations()'')"

definition relativePermeabilities ::
  "Traits \<Rightarrow> Container \<Rightarrow> Params \<Rightarrow> FluidState \<Rightarrow> error + Container" where
  "relativePermeabilities t values params fs =
     (case krw t params fs of
        Inl e \<Rightarrow> Inl e
      | Inr vw \<Rightarrow>
          (let values1 = values[wPhaseIdx t := vw] in
           case krn t params fs of
             Inl e \<Rightarrow> Inl e
           | Inr vn \<Rightarrow> Inr (values1[nPhaseIdx t := vn])))"

definition dCapillaryPressures_dSaturation ::
  "Traits \<Rightarrow> Container \<Rightarrow> Params \<Rightarrow> FluidState \<Rightarrow> nat \<Rightarrow> error + Container" where
  "dCapillaryPressures_dSaturation t values params state satPhaseIdx =
     (let values1 = values[wPhaseIdx t := 0];
          values2 = values1[nPhaseIdx t := 0]
      in if satPhaseIdx = wPhaseIdx t then
           (case evalDeriv_fn (pcnwSamples params) (saturation state (wPhaseIdx t)) of
              Inl e \<Rightarrow> Inl e
            | Inr d \<Rightarrow> Inr (values2[nPhaseIdx t := d]))
         else Inr values2)"

text \<open>
  The loop \<open>for (idx = 0; idx < numPhases; ++idx) values[idx] = 0.0\<close>, which is the body
  of the six functions below.
\<close>

definition zero_all_phases :: "Container \<Rightarrow> Container" where
  "zero_all_phases values = fold (\<lambda>phaseIdx vs. vs[phaseIdx := 0]) [0..<numPhases] values"

definition dCapillaryPressures_dPressure ::
  "Container \<Rightarrow> Params \<Rightarrow> FluidState \<Rightarrow> nat \<Rightarrow> Container" where
  "dCapillaryPressures_dPressure values params state pPhaseIdx = zero_all_phases values"

definition dCapillaryPressures_dTemperature ::
  "Container \<Rightarrow> Params \<Rightarrow> FluidState \<Rightarrow> Container" where
  "dCapillaryPressures_dTemperature values params state = zero_all_phases values"

definition dCapillaryPressures_dMoleFraction ::
  "Container \<Rightarrow> Params \<Rightarrow> FluidState \<Rightarrow> nat \<Rightarrow> nat \<Rightarrow> Container" where
  "dCapillaryPressures_dMoleFraction values params state phaseIdx compIdx =
     zero_all_phases values"

definition dRelativePermeabilities_dSaturation ::
  "Traits \<Rightarrow> Container \<Rightarrow> Params \<Rightarrow> FluidState \<Rightarrow> nat \<Rightarrow> error + Container" where
  "dRelativePermeabilities_dSaturation t values params state satPhaseIdx =
     (if satPhaseIdx = wPhaseIdx t then
        (case evalDeriv_fn (krwSamples params) (saturation state (wPhaseIdx t)) of
           Inl e \<Rightarrow> Inl e
         | Inr d \<Rightarrow> Inr ((values[wPhaseIdx t := d])[nPhaseIdx t := 0]))
      else
        (let values1 = values[wPhaseIdx t := 0] in
         case evalDeriv_fn (krwSamples params) (1 - saturation state (nPhaseIdx t)) of
           Inl e \<Rightarrow> Inl e
         | Inr d \<Rightarrow> Inr (values1[nPhaseIdx t := - d])))"

definition dRelativePermeabilities_dPressure ::
  "Container \<Rightarrow> Params \<Rightarrow> FluidState \<Rightarrow> nat \<Rightarrow> Container" where
  "dRelativePermeabilities_dPressure values params state pPhaseIdx = zero_all_phases values"

definition dRelativePermeabilities_dTemperature ::
  "Container \<Rightarrow> Params \<Rightarrow> FluidState \<Rightarrow> Container" where
  "dRelativePermeabilities_dTemperature values params state = zero_all_phases values"

definition dRelativePermeabilities_dMoleFraction ::
  "Container \<Rightarrow> Params \<Rightarrow> FluidState \<Rightarrow> nat \<Rightarrow> nat \<Rightarrow> Container" where
  "dRelativePermeabilities_dMoleFraction values params state phaseIdx compIdx =
     zero_all_phases values"

section \<open>Properties of the evaluator\<close>

subsection \<open>The bisection loop\<close>

text \<open>
  The loop keeps \<open>lowIdx < highIdx\<close> inside the table, moves \<open>lowIdx\<close> only to an index
  whose abscissa is below \<open>x\<close> and \<open>highIdx\<close> only to one whose abscissa is not. It reads
  the table inside its bounds only, and returns an index.
\<close>

lemma bisection_spec:
  "0 \<le> lowIdx \<Longrightarrow> lowIdx < highIdx \<Longrightarrow> highIdx < int (length samples) \<Longrightarrow>
   \<exists>i. bisection samples x lowIdx highIdx = Inr i \<and> lowIdx \<le> i \<and> i < highIdx \<and>
       (i = lowIdx \<or> fst (samples ! nat i) < x) \<and>
       (i + 1 = highIdx \<or> x \<le> fst (samples ! nat (i + 1)))"
proof (induction samples x lowIdx highIdx rule: bisection.induct)
  case (1 samples x lowIdx highIdx)
  show ?case
  proof (cases "lowIdx + 1 < highIdx")
    case False
    with "1.prems" show ?thesis
      by (simp add: bisection.simps [of samples x lowIdx highIdx])
  next
    case True
    define curIdx where "curIdx = (lowIdx + highIdx) div 2"
    have cur: "lowIdx < curIdx" "curIdx < highIdx"
      using True by (simp_all add: curIdx_def)
    have at: "at_idx samples curIdx = Inr (samples ! nat curIdx)"
      using cur "1.prems" by (simp add: at_idx_def)
    show ?thesis
    proof (cases "fst (samples ! nat curIdx) < x")
      case lt: True
      have "\<exists>i. bisection samples x curIdx highIdx = Inr i \<and> curIdx \<le> i \<and> i < highIdx \<and>
               (i = curIdx \<or> fst (samples ! nat i) < x) \<and>
               (i + 1 = highIdx \<or> x \<le> fst (samples ! nat (i + 1)))"
        using "1.IH"(1) [OF True curIdx_def at] lt cur "1.prems" by simp
      moreover have "bisection samples x lowIdx highIdx = bisection samples x curIdx highIdx"
        using True at lt
        by (simp add: bisection.simps [of samples x lowIdx highIdx] curIdx_def [symmetric])
      ultimately show ?thesis using cur lt by auto
    next
      case ge: False
      have "\<exists>i. bisection samples x lowIdx curIdx = Inr i \<and> lowIdx \<le> i \<and> i < curIdx \<and>
               (i = lowIdx \<or> fst (samples ! nat i) < x) \<and>
               (i + 1 = curIdx \<or> x \<le> fst (samples ! nat (i + 1)))"
        using "1.IH"(2) [OF True curIdx_def at] ge cur "1.prems" by simp
      moreover have "bisection samples x lowIdx highIdx = bisection samples x lowIdx curIdx"
        using True at ge
        by (simp add: bisection.simps [of samples x lowIdx highIdx] curIdx_def [symmetric])
      ultimately show ?thesis using cur ge by auto
    qed
  qed
qed

lemma last_as_nth:
  assumes "2 \<le> length samples"
  shows "samples ! nat (int (length samples) - 1) = last samples"
proof -
  have "samples \<noteq> []" using assms by auto
  moreover have "nat (int (length samples) - 1) = length samples - 1" by simp
  ultimately show ?thesis by (simp add: last_conv_nth)
qed

lemma at_idx_last:
  assumes "2 \<le> length samples"
  shows "at_idx samples (int (length samples) - 1) = Inr (last samples)"
proof -
  have "0 \<le> int (length samples) - 1" using assms by linarith
  then show ?thesis using last_as_nth [OF assms] by (simp only: at_idx_def) simp
qed

lemma at_idx_first:
  assumes "2 \<le> length samples"
  shows "at_idx samples 0 = Inr (samples ! 0)"
proof -
  have "0 < int (length samples)" using assms by linarith
  then show ?thesis by (simp only: at_idx_def) simp
qed

lemma findSegmentIndex_above:
  "2 \<le> length samples \<Longrightarrow> fst (last samples) < x \<Longrightarrow>
   findSegmentIndex_fn samples x = Inr (int (length samples) - 2)"
  by (simp add: findSegmentIndex_fn_def at_idx_last Let_def)

lemma findSegmentIndex_below:
  "2 \<le> length samples \<Longrightarrow> \<not> fst (last samples) < x \<Longrightarrow> x < fst (samples ! 0) \<Longrightarrow>
   findSegmentIndex_fn samples x = Inr 0"
  by (simp add: findSegmentIndex_fn_def at_idx_last at_idx_first Let_def)

lemma findSegmentIndex_inside:
  assumes "2 \<le> length samples" "fst (samples ! 0) \<le> x" "x \<le> fst (last samples)"
  shows "\<exists>i. findSegmentIndex_fn samples x = Inr i \<and> 0 \<le> i \<and> i \<le> int (length samples) - 2 \<and>
             (i = 0 \<or> fst (samples ! nat i) < x) \<and> x \<le> fst (samples ! nat (i + 1))"
proof -
  let ?n = "int (length samples) - 1"
  have last: "last samples = samples ! nat ?n"
    using assms(1) by (simp add: last_as_nth)
  have eq: "findSegmentIndex_fn samples x = bisection samples x 0 ?n"
    using assms by (simp add: findSegmentIndex_fn_def at_idx_last at_idx_first Let_def)
  obtain i where i: "bisection samples x 0 ?n = Inr i" "0 \<le> i" "i < ?n"
      "i = 0 \<or> fst (samples ! nat i) < x" "i + 1 = ?n \<or> x \<le> fst (samples ! nat (i + 1))"
    using bisection_spec [of 0 ?n samples x] assms(1) by auto
  have "x \<le> fst (samples ! nat (i + 1))"
  proof (cases "i + 1 = ?n")
    case True
    then have "nat (i + 1) = nat ?n" by (rule arg_cong)
    then have "samples ! nat (i + 1) = last samples" using last by (simp only:)
    then show ?thesis using assms(3) by simp
  next
    case False
    then show ?thesis using i(5) by simp
  qed
  with i eq show ?thesis by auto
qed

lemma findSegmentIndex_total:
  assumes "2 \<le> length samples"
  shows "\<exists>i. findSegmentIndex_fn samples x = Inr i \<and> 0 \<le> i \<and> i \<le> int (length samples) - 2 \<and>
             (fst (samples ! 0) \<le> x \<and> x \<le> fst (last samples) \<longrightarrow>
                fst (samples ! nat i) \<le> x \<and> x \<le> fst (samples ! nat (i + 1)))"
proof (cases "fst (last samples) < x")
  case True
  then show ?thesis using assms findSegmentIndex_above [of samples x] by simp
next
  case nlt: False
  show ?thesis
  proof (cases "x < fst (samples ! 0)")
    case True
    then show ?thesis using assms nlt findSegmentIndex_below [of samples x] by simp
  next
    case False
    then obtain i where "findSegmentIndex_fn samples x = Inr i" "0 \<le> i"
        "i \<le> int (length samples) - 2" "i = 0 \<or> fst (samples ! nat i) < x"
        "x \<le> fst (samples ! nat (i + 1))"
      using findSegmentIndex_inside [of samples x] assms nlt by auto
    then show ?thesis using False by auto
  qed
qed

subsection \<open>Tables with strictly increasing abscissae\<close>

lemma last_nth_nat:
  assumes "2 \<le> length samples"
  shows "last samples = samples ! (length samples - 1)"
proof -
  have "samples \<noteq> []" using assms by auto
  then show ?thesis by (rule last_conv_nth)
qed

lemma knots_less:
  fixes samples :: SamplePoints
  shows "sorted_wrt (<) (map fst samples) \<Longrightarrow> i < j \<Longrightarrow> j < length samples \<Longrightarrow>
   fst (samples ! i) < fst (samples ! j)"
  using sorted_wrt_nth_less [of "(<)" "map fst samples" i j] by simp

lemma knots_le:
  fixes samples :: SamplePoints
  shows "sorted_wrt (<) (map fst samples) \<Longrightarrow> i \<le> j \<Longrightarrow> j < length samples \<Longrightarrow>
   fst (samples ! i) \<le> fst (samples ! j)"
  using knots_less [of samples i j] by (cases "i = j") simp_all

lemma findSegmentIndex_segment:
  assumes sorted: "sorted_wrt (<) (map fst samples)"
    and j: "Suc j < length samples"
    and lo: "fst (samples ! j) < x" and hi: "x \<le> fst (samples ! Suc j)"
  shows "findSegmentIndex_fn samples x = Inr (int j)"
proof -
  have len: "2 \<le> length samples" using j by simp
  have last: "last samples = samples ! (length samples - 1)"
    using len by (rule last_nth_nat)
  have "fst (samples ! 0) \<le> fst (samples ! j)"
    using knots_le [OF sorted, of 0 j] j by simp
  then have first: "fst (samples ! 0) \<le> x" using lo by simp
  have "fst (samples ! Suc j) \<le> fst (last samples)"
    using knots_le [OF sorted, of "Suc j" "length samples - 1"] j last by simp
  then have top: "x \<le> fst (last samples)" using hi by simp
  obtain i where i: "findSegmentIndex_fn samples x = Inr i" "0 \<le> i"
      "i \<le> int (length samples) - 2" "i = 0 \<or> fst (samples ! nat i) < x"
      "x \<le> fst (samples ! nat (i + 1))"
    using findSegmentIndex_inside [OF len first top] by auto
  define m where "m = nat i"
  have m: "i = int m" "Suc m < length samples" "nat (i + 1) = Suc m"
    using i(2,3) by (simp_all add: m_def nat_add_distrib)
  have "fst (samples ! j) < fst (samples ! Suc m)"
    using lo i(5) m(3) by simp
  then have "\<not> Suc m \<le> j"
    using knots_le [OF sorted, of "Suc m" j] j by auto
  then have ge: "j \<le> m" by simp
  have le: "m \<le> j"
  proof (cases "i = 0")
    case True
    then show ?thesis using m(1) by simp
  next
    case False
    then have "fst (samples ! m) < fst (samples ! Suc j)"
      using i(4) hi by (simp add: m_def)
    then have "\<not> Suc j \<le> m"
      using knots_le [OF sorted, of "Suc j" m] m(2) by auto
    then show ?thesis by simp
  qed
  from ge le have "m = j" by simp
  then show ?thesis using i(1) m(1) by simp
qed

lemma findSegmentIndex_first_knot:
  assumes sorted: "sorted_wrt (<) (map fst samples)"
    and len: "2 \<le> length samples"
  shows "findSegmentIndex_fn samples (fst (samples ! 0)) = Inr 0"
proof -
  let ?x = "fst (samples ! 0)"
  have last: "last samples = samples ! (length samples - 1)"
    using len by (rule last_nth_nat)
  have top: "?x \<le> fst (last samples)"
    using knots_le [OF sorted, of 0 "length samples - 1"] len last by simp
  obtain i where i: "findSegmentIndex_fn samples ?x = Inr i" "0 \<le> i"
      "i \<le> int (length samples) - 2" "i = 0 \<or> fst (samples ! nat i) < ?x"
    using findSegmentIndex_inside [OF len _ top] by auto
  have "nat i < length samples" using i(2,3) by linarith
  then have "\<not> fst (samples ! nat i) < ?x"
    using knots_le [OF sorted, of 0 "nat i"] by auto
  then show ?thesis using i by auto
qed

lemma front_of_nth: "2 \<le> length samples \<Longrightarrow> front_of samples = Inr (samples ! 0)"
  by (cases samples) (simp_all add: front_of_def)

lemma back_of_last: "2 \<le> length samples \<Longrightarrow> back_of samples = Inr (last samples)"
  by (cases samples) (simp_all add: back_of_def)

lemma at_idx_segment:
  "0 \<le> i \<Longrightarrow> i \<le> int (length samples) - 2 \<Longrightarrow>
   at_idx samples i = Inr (samples ! nat i) \<and>
   at_idx samples (i + 1) = Inr (samples ! nat (i + 1))"
  by (simp add: at_idx_def)

lemma evalDeriv_segment:
  assumes len: "2 \<le> length samples"
    and seg: "findSegmentIndex_fn samples x = Inr i"
  shows "evalDeriv_fn samples x =
         Inr ((snd (samples ! nat (i + 1)) - snd (samples ! nat i))
              / (fst (samples ! nat (i + 1)) - fst (samples ! nat i)))"
proof -
  have "0 \<le> i" "i \<le> int (length samples) - 2"
    using findSegmentIndex_total [OF len, of x] seg by auto
  then show ?thesis
    using at_idx_segment [of i samples] seg by (simp add: evalDeriv_fn_def)
qed

lemma eval_segment:
  assumes len: "2 \<le> length samples"
    and seg: "findSegmentIndex_fn samples x = Inr i"
  shows "eval_fn samples x =
         Inr (snd (samples ! nat i) + (snd (samples ! nat (i + 1)) - snd (samples ! nat i))
              * ((x - fst (samples ! nat i)) / (fst (samples ! nat (i + 1)) - fst (samples ! nat i))))"
proof -
  have i: "0 \<le> i" "i \<le> int (length samples) - 2"
    and br: "fst (samples ! 0) \<le> x \<and> x \<le> fst (last samples) \<longrightarrow>
             fst (samples ! nat i) \<le> x \<and> x \<le> fst (samples ! nat (i + 1))"
    using findSegmentIndex_total [OF len, of x] seg by auto
  show ?thesis
    using at_idx_segment [OF i] seg br front_of_nth [OF len] back_of_last [OF len]
    by (simp add: eval_fn_def Let_def)
qed

subsection \<open>Values at the knots and on the segments\<close>

lemma eval_first_knot:
  assumes sorted: "sorted_wrt (<) (map fst samples)" and len: "2 \<le> length samples"
  shows "eval_fn samples (fst (samples ! 0)) = Inr (snd (samples ! 0))"
proof -
  have "findSegmentIndex_fn samples (fst (samples ! 0)) = Inr 0"
    using findSegmentIndex_first_knot [OF sorted len] .
  from eval_segment [OF len this] show ?thesis by simp
qed

lemma eval_half_open_segment:
  assumes sorted: "sorted_wrt (<) (map fst samples)" and i: "Suc i < length samples"
    and lo: "fst (samples ! i) < x" and hi: "x \<le> fst (samples ! Suc i)"
  shows "eval_fn samples x =
           Inr (snd (samples ! i)
                + (snd (samples ! Suc i) - snd (samples ! i))
                  * ((x - fst (samples ! i)) / (fst (samples ! Suc i) - fst (samples ! i))))"
proof -
  have len: "2 \<le> length samples" using i by simp
  have seg: "findSegmentIndex_fn samples x = Inr (int i)"
    using findSegmentIndex_segment [OF sorted i lo hi] .
  have "nat (int i + 1) = Suc i" by simp
  then show ?thesis using eval_segment [OF len seg] by simp
qed

lemma evalDeriv_half_open_segment:
  assumes sorted: "sorted_wrt (<) (map fst samples)" and i: "Suc i < length samples"
    and lo: "fst (samples ! i) < x" and hi: "x \<le> fst (samples ! Suc i)"
  shows "evalDeriv_fn samples x =
           Inr ((snd (samples ! Suc i) - snd (samples ! i))
                / (fst (samples ! Suc i) - fst (samples ! i)))"
proof -
  have len: "2 \<le> length samples" using i by simp
  have seg: "findSegmentIndex_fn samples x = Inr (int i)"
    using findSegmentIndex_segment [OF sorted i lo hi] .
  have "nat (int i + 1) = Suc i" by simp
  then show ?thesis using evalDeriv_segment [OF len seg] by simp
qed

lemma eval_knot:
  assumes sorted: "sorted_wrt (<) (map fst samples)" and len: "2 \<le> length samples"
    and k: "k < length samples"
  shows "eval_fn samples (fst (samples ! k)) = Inr (snd (samples ! k))"
proof (cases k)
  case 0
  then show ?thesis using eval_first_knot [OF sorted len] by simp
next
  case (Suc j)
  have less: "fst (samples ! j) < fst (samples ! Suc j)"
    using knots_less [OF sorted, of j "Suc j"] k Suc by simp
  have "Suc j < length samples" using k Suc by simp
  from eval_half_open_segment [OF sorted this less order_refl]
  show ?thesis using less Suc by simp
qed

lemma eval_closed_segment:
  assumes sorted: "sorted_wrt (<) (map fst samples)" and i: "Suc i < length samples"
    and lo: "fst (samples ! i) \<le> x" and hi: "x \<le> fst (samples ! Suc i)"
  shows "eval_fn samples x =
           Inr (snd (samples ! i)
                + (snd (samples ! Suc i) - snd (samples ! i))
                  * ((x - fst (samples ! i)) / (fst (samples ! Suc i) - fst (samples ! i))))"
proof (cases "fst (samples ! i) < x")
  case True
  then show ?thesis using eval_half_open_segment [OF sorted i _ hi] by simp
next
  case False
  then have x: "x = fst (samples ! i)" using lo by simp
  have "2 \<le> length samples" "i < length samples" using i by simp_all
  from eval_knot [OF sorted this] show ?thesis using x by simp
qed

lemma evalDeriv_at_or_below_first:
  assumes sorted: "sorted_wrt (<) (map fst samples)" and len: "2 \<le> length samples"
    and x: "x \<le> fst (samples ! 0)"
  shows "evalDeriv_fn samples x =
           Inr ((snd (samples ! 1) - snd (samples ! 0)) / (fst (samples ! 1) - fst (samples ! 0)))"
proof -
  have top: "fst (samples ! 0) \<le> fst (last samples)"
    using knots_le [OF sorted, of 0 "length samples - 1"] len last_nth_nat [OF len] by simp
  have seg: "findSegmentIndex_fn samples x = Inr 0"
  proof (cases "x < fst (samples ! 0)")
    case True
    then show ?thesis using findSegmentIndex_below [OF len _ True] top by simp
  next
    case False
    then have "x = fst (samples ! 0)" using x by simp
    then show ?thesis using findSegmentIndex_first_knot [OF sorted len] by simp
  qed
  from evalDeriv_segment [OF len seg] show ?thesis by simp
qed

lemma evalDeriv_above_last:
  assumes len: "2 \<le> length samples" and x: "fst (last samples) < x"
  shows "evalDeriv_fn samples x =
           Inr ((snd (samples ! (length samples - 1)) - snd (samples ! (length samples - 2)))
                / (fst (samples ! (length samples - 1)) - fst (samples ! (length samples - 2))))"
proof -
  have seg: "findSegmentIndex_fn samples x = Inr (int (length samples) - 2)"
    using findSegmentIndex_above [OF len x] .
  have a: "nat (int (length samples) - 2) = length samples - 2" by simp
  have b: "nat (int (length samples) - 2 + 1) = length samples - 1" using len by simp
  from evalDeriv_segment [OF len seg] show ?thesis by (simp only: a b)
qed

lemma evalDeriv_returns:
  assumes len: "2 \<le> length samples"
  shows "\<exists>d. evalDeriv_fn samples x = Inr d"
proof -
  obtain i where "findSegmentIndex_fn samples x = Inr i"
    using findSegmentIndex_total [OF len, of x] by blast
  from evalDeriv_segment [OF len this] show ?thesis by blast
qed

lemma eval_returns:
  assumes len: "2 \<le> length samples"
  shows "\<exists>v. eval_fn samples x = Inr v"
proof -
  obtain i where "findSegmentIndex_fn samples x = Inr i"
    using findSegmentIndex_total [OF len, of x] by blast
  from eval_segment [OF len this] show ?thesis by blast
qed

subsection \<open>The loop over the phases\<close>

lemma zero_all_phases_replicate:
  assumes "length values = numPhases"
  shows "zero_all_phases values = replicate numPhases 0"
proof -
  obtain a b where "values = [a, b]"
    using assms by (auto simp: numPhases_def numeral_2_eq_2 length_Suc_conv)
  then show ?thesis
    by (simp add: zero_all_phases_def numPhases_def numeral_2_eq_2)
qed

section \<open>Properties of the rounded evaluator\<close>

subsection \<open>The rounding of double\<close>

text \<open>
  \<open>binade\<close> is the exponent of its argument, and \<open>fl64\<close> returns a multiple of the quantum
  that is at most half a quantum away from the exact result.
\<close>

lemma bit_length_bounds:
  "0 < n \<Longrightarrow> 0 < bit_length n \<and> 2 ^ nat (bit_length n - 1) \<le> n \<and> n < 2 ^ nat (bit_length n)"
proof (induction n rule: bit_length.induct)
  case (1 n)
  show ?case
  proof (cases "n = 1")
    case True
    then show ?thesis
      by (simp add: bit_length.simps [of 1] bit_length.simps [of 0])
  next
    case False
    with "1.prems" have pos: "0 < n div 2" by simp
    have IH: "0 < bit_length (n div 2) \<and> 2 ^ nat (bit_length (n div 2) - 1) \<le> n div 2
        \<and> n div 2 < 2 ^ nat (bit_length (n div 2))"
      using "1.IH" "1.prems" pos by simp
    define b where "b = bit_length (n div 2)"
    have bl: "bit_length n = 1 + b"
      using "1.prems" by (simp add: bit_length.simps [of n] b_def)
    have b: "0 < b" "2 ^ nat (b - 1) \<le> n div 2" "n div 2 < 2 ^ nat b"
      using IH by (simp_all add: b_def)
    have e1: "nat (1 + b - 1) = Suc (nat (b - 1))" using b(1) by simp
    have e2: "nat (1 + b) = Suc (nat b)" using b(1) by simp
    have e3: "nat b = Suc (nat (b - 1))" using b(1) by simp
    have "2 * 2 ^ nat (b - 1) \<le> n" using b(2) by linarith
    then have lo: "2 ^ nat b \<le> n" by (simp add: e3)
    have hi: "n < 2 * 2 ^ nat b" using b(3) by linarith
    have "nat (bit_length n - 1) = nat b" "nat (bit_length n) = Suc (nat b)"
      using b(1) by (simp_all add: bl)
    then show ?thesis using lo hi b(1) bl by simp
  qed
qed

lemma binade_bounds:
  assumes "x \<noteq> 0"
  shows "pow2 (binade x) \<le> \<bar>x\<bar> \<and> \<bar>x\<bar> < pow2 (binade x + 1)"
proof (cases "1 \<le> \<bar>x\<bar>")
  case True
  define n where "n = \<lfloor>\<bar>x\<bar>\<rfloor>"
  have n: "0 < n" "of_int n \<le> \<bar>x\<bar>" "\<bar>x\<bar> < of_int (n + 1)"
    using True by (simp_all add: n_def)
  define b where "b = bit_length n"
  have b: "0 < b" "2 ^ nat (b - 1) \<le> n" "n < 2 ^ nat b"
    using bit_length_bounds [OF n(1)] by (simp_all add: b_def)
  have be: "binade x = b - 1" using True by (simp add: binade_def n_def b_def)
  have p1: "pow2 (b - 1) = 2 ^ nat (b - 1)" and p2: "pow2 b = 2 ^ nat b"
    using b(1) by (simp_all add: pow2_def)
  have "(2::real) ^ nat (b - 1) \<le> of_int n"
    using b(2) by (metis of_int_le_iff of_int_numeral of_int_power)
  then have lo: "(2::real) ^ nat (b - 1) \<le> \<bar>x\<bar>" using n(2) by (rule order_trans)
  have "n + 1 \<le> 2 ^ nat b" using b(3) by simp
  then have "of_int (n + 1) \<le> (2::real) ^ nat b"
    by (metis of_int_le_iff of_int_numeral of_int_power)
  with n(3) have hi: "\<bar>x\<bar> < (2::real) ^ nat b" by (rule less_le_trans)
  show ?thesis using lo hi by (simp add: be p1 p2)
next
  case False
  then have small: "\<bar>x\<bar> < 1" by simp
  have pos: "0 < \<bar>x\<bar>" using assms by simp
  define m where "m = \<lceil>1 / \<bar>x\<bar>\<rceil> - 1"
  have inv: "1 < 1 / \<bar>x\<bar>" using small pos by simp
  have "1 < \<lceil>1 / \<bar>x\<bar>\<rceil>" using inv by (simp add: less_ceiling_iff)
  then have m0: "0 < m" by (simp add: m_def)
  have m1: "of_int m < 1 / \<bar>x\<bar>"
    unfolding m_def by linarith
  have m2: "1 / \<bar>x\<bar> \<le> of_int (m + 1)"
    unfolding m_def by simp
  define b where "b = bit_length m"
  have b: "0 < b" "2 ^ nat (b - 1) \<le> m" "m < 2 ^ nat b"
    using bit_length_bounds [OF m0] by (simp_all add: b_def)
  have be: "binade x = - b" using False by (simp add: binade_def m_def b_def)
  have "m + 1 \<le> 2 ^ nat b" using b(3) by simp
  then have "of_int (m + 1) \<le> (2::real) ^ nat b"
    by (metis of_int_le_iff of_int_numeral of_int_power)
  with m2 have "1 / \<bar>x\<bar> \<le> 2 ^ nat b" by (rule order_trans)
  then have "1 \<le> 2 ^ nat b * \<bar>x\<bar>" using pos by (simp add: field_simps)
  then have "1 / 2 ^ nat b \<le> \<bar>x\<bar>" by (simp add: field_simps)
  moreover have "pow2 (- b) = 1 / 2 ^ nat b" using b(1) by (simp add: pow2_def)
  ultimately have lo: "pow2 (- b) \<le> \<bar>x\<bar>" by simp
  have "(2::real) ^ nat (b - 1) \<le> of_int m"
    using b(2) by (metis of_int_le_iff of_int_numeral of_int_power)
  then have "2 ^ nat (b - 1) < 1 / \<bar>x\<bar>" using m1 by (rule le_less_trans)
  then have "2 ^ nat (b - 1) * \<bar>x\<bar> < 1" using pos by (simp add: field_simps)
  then have lt: "\<bar>x\<bar> < 1 / 2 ^ nat (b - 1)" by (simp add: field_simps)
  have "pow2 (- b + 1) = 1 / 2 ^ nat (b - 1)"
  proof (cases "b = 1")
    case True
    then show ?thesis by (simp add: pow2_def)
  next
    case False
    then have "\<not> 0 \<le> - b + 1" "nat (- (- b + 1)) = nat (b - 1)" using b(1) by simp_all
    then show ?thesis by (simp only: pow2_def if_False)
  qed
  then have hi: "\<bar>x\<bar> < pow2 (- b + 1)" using lt by simp
  show ?thesis using lo hi by (simp add: be)
qed

lemma round_half_even_near: "\<bar>of_int (round_half_even r) - r\<bar> \<le> 1/2"
  by (simp add: round_half_even_def Let_def)

lemma fl64_nearest:
  assumes "x \<noteq> 0" and "fl64 x = Some r"
  shows "\<exists>k. r = of_int k * pow2 (max (binade x) (- 1022) - 52)
           \<and> \<bar>r - x\<bar> \<le> pow2 (max (binade x) (- 1022) - 52) / 2"
proof -
  define q where "q = pow2 (max (binade x) (- 1022) - 52)"
  have q: "0 < q" by (simp add: q_def pow2_def)
  define k where "k = round_half_even (x / q)"
  have r: "r = of_int k * q"
    using assms by (simp add: fl64_def Let_def q_def k_def split: if_splits)
  have "\<bar>of_int k - x / q\<bar> \<le> 1/2"
    unfolding k_def by (rule round_half_even_near)
  then have "\<bar>of_int k - x / q\<bar> * q \<le> 1/2 * q"
    using q by (simp only: mult_le_cancel_right_pos)
  moreover have "\<bar>of_int k - x / q\<bar> * q = \<bar>of_int k * q - x\<bar>"
  proof -
    have "\<bar>of_int k - x / q\<bar> * q = \<bar>(of_int k - x / q) * q\<bar>"
      using q by (simp add: abs_mult)
    also have "(of_int k - x / q) * q = of_int k * q - x"
      using q by (simp add: field_simps)
    finally show ?thesis .
  qed
  ultimately have "\<bar>r - x\<bar> \<le> q / 2" using r by simp
  then show ?thesis using r unfolding q_def by blast
qed

subsection \<open>The rounded value on a segment\<close>

lemma evalDeriv_rounded_segment:
  assumes len: "2 \<le> length samples"
    and seg: "findSegmentIndex_fn samples x = Inr i"
  shows "evalDeriv_rounded rnd samples x =
         map_option Inr (slope_rounded rnd (samples ! nat i) (samples ! nat (i + 1)))"
proof -
  have "0 \<le> i" "i \<le> int (length samples) - 2"
    using findSegmentIndex_total [OF len, of x] seg by auto
  then show ?thesis
    using at_idx_segment [of i samples] seg by (simp add: evalDeriv_rounded_def)
qed

lemma eval_rounded_segment:
  assumes len: "2 \<le> length samples"
    and seg: "findSegmentIndex_fn samples x = Inr i"
  shows "eval_rounded rnd samples x =
         map_option Inr (interpolate_rounded rnd x (samples ! nat i) (samples ! nat (i + 1)))"
proof -
  have i: "0 \<le> i" "i \<le> int (length samples) - 2"
    and br: "fst (samples ! 0) \<le> x \<and> x \<le> fst (last samples) \<longrightarrow>
             fst (samples ! nat i) \<le> x \<and> x \<le> fst (samples ! nat (i + 1))"
    using findSegmentIndex_total [OF len, of x] seg by auto
  show ?thesis
    using at_idx_segment [OF i] seg br front_of_nth [OF len] back_of_last [OF len]
    by (auto simp add: eval_rounded_def)
qed

lemma eval_rounded_half_open_segment:
  assumes sorted: "sorted_wrt (<) (map fst samples)" and i: "Suc i < length samples"
    and lo: "fst (samples ! i) < x" and hi: "x \<le> fst (samples ! Suc i)"
  shows "eval_rounded rnd samples x =
           map_option Inr (interpolate_rounded rnd x (samples ! i) (samples ! Suc i))"
proof -
  have len: "2 \<le> length samples" using i by simp
  have seg: "findSegmentIndex_fn samples x = Inr (int i)"
    using findSegmentIndex_segment [OF sorted i lo hi] .
  have "nat (int i + 1) = Suc i" by simp
  then show ?thesis using eval_rounded_segment [OF len seg] by simp
qed

lemma evalDeriv_rounded_half_open_segment:
  assumes sorted: "sorted_wrt (<) (map fst samples)" and i: "Suc i < length samples"
    and lo: "fst (samples ! i) < x" and hi: "x \<le> fst (samples ! Suc i)"
  shows "evalDeriv_rounded rnd samples x =
           map_option Inr (slope_rounded rnd (samples ! i) (samples ! Suc i))"
proof -
  have len: "2 \<le> length samples" using i by simp
  have seg: "findSegmentIndex_fn samples x = Inr (int i)"
    using findSegmentIndex_segment [OF sorted i lo hi] .
  have "nat (int i + 1) = Suc i" by simp
  then show ?thesis using evalDeriv_rounded_segment [OF len seg] by simp
qed

lemma eval_rounded_first_knot:
  assumes sorted: "sorted_wrt (<) (map fst samples)" and len: "2 \<le> length samples"
    and zero: "rnd 0 = Some 0"
    and d: "rnd (fst (samples ! 1) - fst (samples ! 0)) = Some d" "d \<noteq> 0"
    and dy: "rnd (snd (samples ! 1) - snd (samples ! 0)) = Some dy"
    and y0: "rnd (snd (samples ! 0)) = Some (snd (samples ! 0))"
  shows "eval_rounded rnd samples (fst (samples ! 0)) = Some (Inr (snd (samples ! 0)))"
proof -
  have "findSegmentIndex_fn samples (fst (samples ! 0)) = Inr 0"
    using findSegmentIndex_first_knot [OF sorted len] .
  from eval_rounded_segment [OF len this] show ?thesis
    using zero d dy y0 by (simp add: interpolate_rounded_def)
qed

lemma eval_rounded_later_knot:
  assumes sorted: "sorted_wrt (<) (map fst samples)"
    and k: "0 < k" "k < length samples"
    and one: "rnd 1 = Some 1"
    and d: "rnd (fst (samples ! k) - fst (samples ! (k - 1))) = Some d" "d \<noteq> 0"
    and dy: "rnd (snd (samples ! k) - snd (samples ! (k - 1))) = Some dy" "rnd dy = Some dy"
  shows "eval_rounded rnd samples (fst (samples ! k)) =
           map_option Inr (rnd (snd (samples ! (k - 1)) + dy))"
proof -
  obtain j where j: "k = Suc j" using k(1) by (cases k) auto
  have less: "fst (samples ! j) < fst (samples ! Suc j)"
    using knots_less [OF sorted, of j "Suc j"] k(2) j by simp
  have "Suc j < length samples" using k(2) j by simp
  from eval_rounded_half_open_segment [OF sorted this less order_refl]
  show ?thesis
    using one d dy j by (simp add: interpolate_rounded_def)
qed

lemma eval_rounded_exact:
  assumes sorted: "sorted_wrt (<) (map fst samples)" and len: "2 \<le> length samples"
  shows "eval_rounded Some samples x = Some (eval_fn samples x)"
    and "evalDeriv_rounded Some samples x = Some (evalDeriv_fn samples x)"
proof -
  obtain i where i: "findSegmentIndex_fn samples x = Inr i" "0 \<le> i"
      "i \<le> int (length samples) - 2"
    using findSegmentIndex_total [OF len, of x] by blast
  have n: "nat (i + 1) = Suc (nat i)" "Suc (nat i) < length samples"
    using i(2,3) by simp_all
  have "fst (samples ! nat i) < fst (samples ! Suc (nat i))"
    using knots_less [OF sorted, of "nat i" "Suc (nat i)"] n(2) by simp
  then have ne: "fst (samples ! nat (i + 1)) - fst (samples ! nat i) \<noteq> 0"
    using n(1) by simp
  show "eval_rounded Some samples x = Some (eval_fn samples x)"
    using eval_rounded_segment [OF len i(1), of Some] eval_segment [OF len i(1)] ne
    by (simp add: interpolate_rounded_def)
  show "evalDeriv_rounded Some samples x = Some (evalDeriv_fn samples x)"
    using evalDeriv_rounded_segment [OF len i(1), of Some] evalDeriv_segment [OF len i(1)] ne
    by (simp add: slope_rounded_def)
qed

section \<open>Properties of the material law\<close>

text \<open>
  What the derivatives with respect to a saturation write for valid traits and an output
  container of \<open>numPhases\<close> entries, and how the relative permeability of the non-wetting
  phase is clamped and reads its table at the wetting coordinate.
\<close>

lemma two_phase_cases:
  assumes "Traits_ok t" and "length values = numPhases"
  obtains a b where "values = [a, b]" "wPhaseIdx t = 0" "nPhaseIdx t = 1"
  | a b where "values = [a, b]" "wPhaseIdx t = 1" "nPhaseIdx t = 0"
proof -
  obtain a b where v: "values = [a, b]"
    using assms(2) by (auto simp: numPhases_def numeral_2_eq_2 length_Suc_conv)
  have "wPhaseIdx t = 0 \<and> nPhaseIdx t = 1 \<or> wPhaseIdx t = 1 \<and> nPhaseIdx t = 0"
    using assms(1) by (auto simp: Traits_ok_def numPhases_def)
  then show ?thesis using v that by blast
qed

lemma dCapillaryPressures_dSaturation_entries:
  assumes ok: "Traits_ok t" and vs: "length values = numPhases"
    and len: "2 \<le> length (pcnwSamples params)"
  shows "\<exists>d. evalDeriv_fn (pcnwSamples params) (saturation state (wPhaseIdx t)) = Inr d
           \<and> dCapillaryPressures_dSaturation t values params state satPhaseIdx =
               Inr ((replicate numPhases 0)
                      [nPhaseIdx t := (if satPhaseIdx = wPhaseIdx t then d else 0)])"
proof -
  obtain i where "findSegmentIndex_fn (pcnwSamples params) (saturation state (wPhaseIdx t))
      = Inr i"
    using findSegmentIndex_total [OF len] by blast
  from evalDeriv_segment [OF len this] obtain d
    where d: "evalDeriv_fn (pcnwSamples params) (saturation state (wPhaseIdx t)) = Inr d"
    by blast
  from ok vs d show ?thesis
    by (cases rule: two_phase_cases)
       (auto simp add: dCapillaryPressures_dSaturation_def Let_def numPhases_def
          numeral_2_eq_2)
qed

lemma dRelativePermeabilities_dSaturation_wetting_axis:
  assumes ok: "Traits_ok t" and vs: "length values = numPhases"
    and len: "2 \<le> length (krwSamples params)"
  shows "\<exists>d. evalDeriv_fn (krwSamples params) (saturation state (wPhaseIdx t)) = Inr d
           \<and> dRelativePermeabilities_dSaturation t values params state (wPhaseIdx t) =
               Inr ((replicate numPhases 0)[wPhaseIdx t := d])"
proof -
  obtain i where "findSegmentIndex_fn (krwSamples params) (saturation state (wPhaseIdx t))
      = Inr i"
    using findSegmentIndex_total [OF len] by blast
  from evalDeriv_segment [OF len this] obtain d
    where d: "evalDeriv_fn (krwSamples params) (saturation state (wPhaseIdx t)) = Inr d"
    by blast
  from ok vs d show ?thesis
    by (cases rule: two_phase_cases)
       (auto simp add: dRelativePermeabilities_dSaturation_def Let_def numPhases_def
          numeral_2_eq_2)
qed

lemma twoPhaseSatKrn_clamps:
  "(krnSamples params \<noteq> [] \<and> sw < fst (hd (krnSamples params)) \<longrightarrow>
      twoPhaseSatKrn params sw = Inr (snd (hd (krnSamples params))))
   \<and> (krnSamples params \<noteq> [] \<and> fst (hd (krnSamples params)) \<le> fst (last (krnSamples params))
        \<and> fst (last (krnSamples params)) < sw \<longrightarrow>
      twoPhaseSatKrn params sw = Inr (snd (last (krnSamples params))))"
  by (cases "krnSamples params") (simp_all add: twoPhaseSatKrn_def front_of_def back_of_def)

lemma krn_wetting_coordinate:
  "krn t params fs = twoPhaseSatKrn params (1 - saturation fs (nPhaseIdx t))"
  by (simp add: krn_def)

text \<open>
  For tables of at least two points the functions of the law that evaluate a table return
  a value for every saturation.
\<close>

lemma twoPhaseSatKrw_returns:
  assumes len: "2 \<le> length (krwSamples params)"
  shows "\<exists>v. twoPhaseSatKrw params sw = Inr v"
  using eval_returns [OF len, of sw] front_of_nth [OF len] back_of_last [OF len]
  by (auto simp: twoPhaseSatKrw_def)

lemma twoPhaseSatDKrw_dSw_returns:
  assumes len: "2 \<le> length (krwSamples params)"
  shows "\<exists>v. twoPhaseSatDKrw_dSw params sw = Inr v"
  using evalDeriv_returns [OF len, of sw] front_of_nth [OF len] back_of_last [OF len]
  by (auto simp: twoPhaseSatDKrw_dSw_def)

lemma twoPhaseSatKrn_returns:
  assumes len: "2 \<le> length (krnSamples params)"
  shows "\<exists>v. twoPhaseSatKrn params sw = Inr v"
  using eval_returns [OF len, of sw] front_of_nth [OF len] back_of_last [OF len]
  by (auto simp: twoPhaseSatKrn_def)

lemma twoPhaseSatDKrn_dSw_returns:
  assumes lenw: "2 \<le> length (krwSamples params)" and lenn: "2 \<le> length (krnSamples params)"
  shows "\<exists>v. twoPhaseSatDKrn_dSw params sw = Inr v"
  using evalDeriv_returns [OF lenn, of sw] front_of_nth [OF lenw] back_of_last [OF lenw]
  by (auto simp: twoPhaseSatDKrn_dSw_def)

lemma capillaryPressures_returns:
  assumes len: "2 \<le> length (pcnwSamples params)"
  shows "\<exists>vs. capillaryPressures t values params state = Inr vs"
  using evalDeriv_returns [OF len, of "saturation state (wPhaseIdx t)"]
  by (auto simp: capillaryPressures_def pcnw_def twoPhaseSatPcnw_def Let_def)

lemma relativePermeabilities_returns:
  assumes lenw: "2 \<le> length (krwSamples params)" and lenn: "2 \<le> length (krnSamples params)"
  shows "\<exists>vs. relativePermeabilities t values params state = Inr vs"
  using twoPhaseSatKrw_returns [OF lenw, of "saturation state (wPhaseIdx t)"]
    twoPhaseSatKrn_returns [OF lenn, of "1 - saturation state (nPhaseIdx t)"]
  by (auto simp: relativePermeabilities_def krw_def krn_def Let_def)

lemma dCapillaryPressures_dSaturation_returns:
  assumes len: "2 \<le> length (pcnwSamples params)"
  shows "\<exists>vs. dCapillaryPressures_dSaturation t values params state satPhaseIdx = Inr vs"
  using evalDeriv_returns [OF len, of "saturation state (wPhaseIdx t)"]
  by (auto simp: dCapillaryPressures_dSaturation_def Let_def)

lemma dRelativePermeabilities_dSaturation_returns:
  assumes lenw: "2 \<le> length (krwSamples params)"
  shows "\<exists>vs. dRelativePermeabilities_dSaturation t values params state satPhaseIdx = Inr vs"
  using evalDeriv_returns [OF lenw, of "saturation state (wPhaseIdx t)"]
    evalDeriv_returns [OF lenw, of "1 - saturation state (nPhaseIdx t)"]
  by (auto simp: dRelativePermeabilities_dSaturation_def Let_def)

section \<open>The claims\<close>

lemmas eval_simps = findSegmentIndex_fn_def at_idx_def Let_def bisection.simps
  evalDeriv_fn_def eval_fn_def front_of_def back_of_def

lemmas fl64_simps = fl64_def binade_def pow2_def round_half_even_def bit_length.simps Let_def

text \<open>
  C1. The claim: \<open>twoPhaseSatPcnw(params, Sw)\<close> is the piecewise-linear interpolation of
  the capillary-pressure table at \<open>Sw\<close>, extrapolated linearly outside the table; for the
  table \<open>[(0, 0), (0.5, 1000), (1, 3000)]\<close> it is \<open>500\<close> at \<open>0.25\<close> and \<open>-200\<close> at \<open>-0.1\<close>.

  The source returns \<open>evalDeriv_(params.pcnwSamples(), Sw)\<close>, the slope of the segment, and
  not \<open>eval_\<close>: on this table \<open>twoPhaseSatPcnw\<close> is \<open>2000\<close> at both arguments, while the
  interpolation \<open>eval_\<close> gives the values of the claim.
\<close>

theorem twoPhaseSatPcnw_returns_slope:
  "twoPhaseSatPcnw
     \<lparr>pcnwSamples = [(0, 0), (1/2, 1000), (1, 3000)],
      krwSamples = [(1/5, 0), (1, 1)],
      krnSamples = [(0, 1), (1, 0)]\<rparr> (1/4) = Inr 2000
   \<and> twoPhaseSatPcnw
     \<lparr>pcnwSamples = [(0, 0), (1/2, 1000), (1, 3000)],
      krwSamples = [(1/5, 0), (1, 1)],
      krnSamples = [(0, 1), (1, 0)]\<rparr> (- 1/10) = Inr 2000
   \<and> eval_fn [(0, 0), (1/2, 1000), (1, 3000)] (1/4) = Inr 500
   \<and> eval_fn [(0, 0), (1/2, 1000), (1, 3000)] (- 1/10) = Inr (- 200)"
  by (simp add: twoPhaseSatPcnw_def eval_simps)

text \<open>
  C2. The claim: \<open>dCapillaryPressures_dSaturation\<close> writes the slope of the
  capillary-pressure table at \<open>Sw\<close> into the non-wetting slot when the axis is the wetting
  phase, and zero everywhere else; \<open>dRelativePermeabilities_dSaturation\<close> writes, for the
  wetting axis, the slope of the wetting table at \<open>Sw\<close> and zero, and for the non-wetting
  axis zero and minus the slope of the non-wetting table at \<open>1 - Sn\<close>.

  In the branch of the non-wetting axis the source differentiates \<open>krwSamples()\<close>, the
  table of the wetting phase. With a wetting table of slope \<open>1\<close>, a non-wetting table of
  slope \<open>-3/4\<close> and \<open>Sn = 2/5\<close>, the non-wetting slot receives \<open>-1\<close>, and not \<open>3/4\<close>.
\<close>

theorem dRelativePermeabilities_dSaturation_uses_krw:
  "dRelativePermeabilities_dSaturation \<lparr>wPhaseIdx = 0, nPhaseIdx = 1\<rparr> [0, 0]
     \<lparr>pcnwSamples = [(0, 0), (1/2, 1000), (1, 3000)],
      krwSamples = [(0, 0), (1, 1)],
      krnSamples = [(0, 3/4), (1, 0)]\<rparr>
     \<lparr>saturation = (\<lambda>phaseIdx. if phaseIdx = 0 then 3/5 else 2/5)\<rparr> 1 = Inr [0, - 1]
   \<and> evalDeriv_fn [(0, 3/4), (1, 0)] (1 - 2/5) = Inr (- 3/4)
   \<and> evalDeriv_fn [(0, 0), (1, 1)] (1 - 2/5) = Inr 1"
  by (simp add: dRelativePermeabilities_dSaturation_def eval_simps)

text \<open>
  C3. The claim: for a table with strictly increasing abscissae and a query equal to an
  internal knot \<open>x\<^sub>k\<close>, \<open>findSegmentIndex_\<close> selects segment \<open>k\<close>, whose left end is the
  knot, and \<open>evalDeriv_\<close> returns the slope to the right of the knot.

  The bisection moves \<open>lowIdx\<close> only to an index whose abscissa is strictly below \<open>x\<close>, so
  at a knot it ends on the segment to the left: on \<open>[(0, 0), (0.5, 1000), (1, 3000)]\<close> the
  query \<open>0.5\<close> selects segment \<open>0\<close> and the slope \<open>2000\<close>, not segment \<open>1\<close> and \<open>4000\<close>.
\<close>

theorem findSegmentIndex_knot_counterexample:
  "findSegmentIndex_fn [(0, 0), (1/2, 1000), (1, 3000)] (1/2) = Inr 0
   \<and> findSegmentIndex_fn [(0, 0), (1/2, 1000), (1, 3000)] (1/2) \<noteq> Inr 1
   \<and> evalDeriv_fn [(0, 0), (1/2, 1000), (1, 3000)] (1/2) = Inr 2000
   \<and> evalDeriv_fn [(0, 0), (1/2, 1000), (1, 3000)] (1/2) \<noteq> Inr ((3000 - 1000) / (1 - 1/2))"
  by (simp add: eval_simps)

text \<open>
  C3, as amended: for a table with strictly increasing abscissae and a query equal to
  an internal knot \<open>x\<^sub>k\<close> (\<open>0 < k < last\<close>), \<open>findSegmentIndex_\<close> selects segment \<open>k - 1\<close>,
  whose right end is the knot, and \<open>evalDeriv_\<close> returns the slope of the segment to the
  left of the knot.
\<close>

theorem findSegmentIndex_internal_knot:
  assumes "sorted_wrt (<) (map fst samples)" and "0 < k" and "Suc k < length samples"
  shows "findSegmentIndex_fn samples (fst (samples ! k)) = Inr (int k - 1)
         \<and> evalDeriv_fn samples (fst (samples ! k)) =
             Inr ((snd (samples ! k) - snd (samples ! (k - 1)))
                  / (fst (samples ! k) - fst (samples ! (k - 1))))"
proof -
  obtain j where j: "k = Suc j" using assms(2) by (cases k) auto
  have less: "fst (samples ! j) < fst (samples ! Suc j)"
    using knots_less [OF assms(1), of j "Suc j"] assms(3) j by simp
  have seg: "findSegmentIndex_fn samples (fst (samples ! Suc j)) = Inr (int j)"
    using findSegmentIndex_segment [OF assms(1) _ less] assms(3) j by simp
  have len: "2 \<le> length samples" using assms(3) by simp
  have "nat (int j + 1) = Suc j" by simp
  then show ?thesis
    using seg evalDeriv_segment [OF len seg] j by simp
qed

theorem findSegmentIndex_internal_knot_witness:
  "sorted_wrt (<) (map fst ([(0, 0), (1/2, 1000), (1, 3000)] :: SamplePoints))
   \<and> (0::nat) < 1 \<and> Suc 1 < length ([(0, 0), (1/2, 1000), (1, 3000)] :: SamplePoints)
   \<and> findSegmentIndex_fn [(0, 0), (1/2, 1000), (1, 3000)] (1/2) = Inr 0
   \<and> evalDeriv_fn [(0, 0), (1/2, 1000), (1, 3000)] (1/2) = Inr 2000"
  using findSegmentIndex_internal_knot [of "[(0, 0), (1/2, 1000), (1, 3000)]" 1]
  by simp

text \<open>
  C4. The claim: below the first and above the last knot of the non-wetting table,
  \<open>twoPhaseSatKrn\<close> returns the ordinate of the nearest end and \<open>twoPhaseSatDKrn_dSw\<close>
  returns zero; and \<open>krn(params, state)\<close> is \<open>twoPhaseSatKrn\<close> at \<open>1 - Sn\<close>.

  \<open>twoPhaseSatDKrn_dSw\<close> compares \<open>Sw\<close> with the ends of \<open>krwSamples()\<close>, the table of the
  wetting phase, and then differentiates \<open>krnSamples()\<close>. Where the non-wetting table
  covers less than the wetting one, a saturation outside the non-wetting table gets
  the slope of its nearest segment: with a wetting table on \<open>[0, 1]\<close> and the non-wetting
  table \<open>[(0.2, 1), (0.8, 0)]\<close> the result at \<open>0.1\<close> and at \<open>0.9\<close> is \<open>-5/3\<close>, not zero.
\<close>

theorem twoPhaseSatDKrn_dSw_outside_krn_table:
  "twoPhaseSatDKrn_dSw
     \<lparr>pcnwSamples = [(0, 0), (1/2, 1000), (1, 3000)],
      krwSamples = [(0, 0), (1, 1)],
      krnSamples = [(1/5, 1), (4/5, 0)]\<rparr> (1/10) = Inr (- 5/3)
   \<and> twoPhaseSatDKrn_dSw
     \<lparr>pcnwSamples = [(0, 0), (1/2, 1000), (1, 3000)],
      krwSamples = [(0, 0), (1, 1)],
      krnSamples = [(1/5, 1), (4/5, 0)]\<rparr> (9/10) = Inr (- 5/3)"
  by (simp add: twoPhaseSatDKrn_dSw_def eval_simps)

text \<open>
  C5. The claim: for a table with at least two points and strictly increasing abscissae,
  \<open>eval_\<close> returns at every knot exactly the tabulated ordinate, and on every open segment
  \<open>x\<^sub>i < x < x\<^sub>i\<^sub>+\<^sub>1\<close> it is affine in \<open>x\<close>, with the slope
  \<open>(y\<^sub>i\<^sub>+\<^sub>1 - y\<^sub>i) / (x\<^sub>i\<^sub>+\<^sub>1 - x\<^sub>i)\<close> that \<open>evalDeriv_\<close> returns on the whole segment.

  At a knot \<open>x\<^sub>k\<close> with \<open>k \<ge> 1\<close> the search selects segment \<open>k - 1\<close>, so \<open>eval_\<close> computes
  \<open>y\<^sub>k\<^sub>-\<^sub>1 + (y\<^sub>k - y\<^sub>k\<^sub>-\<^sub>1) * 1\<close>, and the difference and the sum are rounded. With \<open>double\<close>,
  on the table \<open>[(0, 2\<^sup>5\<^sup>4), (1, 1)]\<close> the value at the knot \<open>1\<close> is \<open>0\<close> and not \<open>1\<close>; and on a
  table with the doubles nearest to \<open>0.4\<close> and \<open>0.1\<close> as ordinates at \<open>0.5\<close> and \<open>0.75\<close>, the
  value at \<open>0.75\<close> is one unit in the last place below the tabulated ordinate.
\<close>

theorem eval_rounded_knot_counterexample:
  "fl64 18014398509481984 = Some 18014398509481984 \<and> fl64 1 = Some 1 \<and> fl64 0 = Some 0
   \<and> eval_rounded fl64 [(0, 18014398509481984), (1, 1)] 1 = Some (Inr 0)
   \<and> eval_rounded fl64 [(0, 18014398509481984), (1, 1)] (fst ([(0, 18014398509481984), (1, 1)] ! 1))
       \<noteq> Some (Inr (snd ([(0, 18014398509481984), (1, 1 :: Scalar)] ! 1)))
   \<and> fl64 (3602879701896397/9007199254740992) = Some (3602879701896397/9007199254740992)
   \<and> fl64 (3602879701896397/36028797018963968) = Some (3602879701896397/36028797018963968)
   \<and> eval_rounded fl64
        [(1/2, 3602879701896397/9007199254740992), (3/4, 3602879701896397/36028797018963968)]
        (3/4) = Some (Inr (900719925474099/9007199254740992))"
  by (simp add: eval_rounded_def interpolate_rounded_def eval_simps fl64_simps)

text \<open>
  C5, as amended: for a table with at least two points and strictly increasing
  abscissae, in exact arithmetic \<open>eval_\<close> returns at every knot the tabulated ordinate, and
  on every open segment it is affine in \<open>x\<close> with the slope
  \<open>(y\<^sub>i\<^sub>+\<^sub>1 - y\<^sub>i) / (x\<^sub>i\<^sub>+\<^sub>1 - x\<^sub>i)\<close> that \<open>evalDeriv_\<close> returns on the whole segment. In
  rounded arithmetic, as long as the operations have finite results, \<open>eval_\<close> returns the
  first ordinate exactly at the first knot; at a later knot \<open>x\<^sub>k\<close> it returns the rounded
  sum of \<open>y\<^sub>k\<^sub>-\<^sub>1\<close> and the rounded difference \<open>y\<^sub>k - y\<^sub>k\<^sub>-\<^sub>1\<close>, which is \<open>y\<^sub>k\<close> when the difference
  is exact; and on every open segment \<open>evalDeriv_\<close> returns one value, the rounded quotient
  of the rounded differences of the two knots, and \<open>eval_\<close> the rounded interpolation
  between them.

  The first two parts are stated for every rounding that keeps \<open>0\<close> and \<open>1\<close>, gives a
  finite non-zero width of the segment and a finite difference of its ordinates, and
  keeps an ordinate and a difference it has already rounded; \<open>fl64\<close> is such a rounding
  on the tables of the witness.
\<close>

theorem eval_rounded_knots_and_segments:
  assumes sorted: "sorted_wrt (<) (map fst samples)" and len: "2 \<le> length samples"
  shows "(\<forall>d dy. rnd 0 = Some 0
            \<and> rnd (fst (samples ! 1) - fst (samples ! 0)) = Some d \<and> d \<noteq> 0
            \<and> rnd (snd (samples ! 1) - snd (samples ! 0)) = Some dy
            \<and> rnd (snd (samples ! 0)) = Some (snd (samples ! 0)) \<longrightarrow>
            eval_rounded rnd samples (fst (samples ! 0)) = Some (Inr (snd (samples ! 0))))
       \<and> (\<forall>k d dy. 0 < k \<and> k < length samples \<and> rnd 1 = Some 1
            \<and> rnd (fst (samples ! k) - fst (samples ! (k - 1))) = Some d \<and> d \<noteq> 0
            \<and> rnd (snd (samples ! k) - snd (samples ! (k - 1))) = Some dy
            \<and> rnd dy = Some dy \<longrightarrow>
            eval_rounded rnd samples (fst (samples ! k)) =
              map_option Inr (rnd (snd (samples ! (k - 1)) + dy)))
       \<and> (\<forall>i x. Suc i < length samples \<and> fst (samples ! i) < x \<and> x < fst (samples ! Suc i) \<longrightarrow>
            evalDeriv_rounded rnd samples x =
              map_option Inr (slope_rounded rnd (samples ! i) (samples ! Suc i))
            \<and> eval_rounded rnd samples x =
              map_option Inr (interpolate_rounded rnd x (samples ! i) (samples ! Suc i)))
       \<and> (\<forall>k < length samples.
            eval_rounded Some samples (fst (samples ! k)) = Some (Inr (snd (samples ! k))))
       \<and> (\<forall>i x. Suc i < length samples \<and> fst (samples ! i) < x \<and> x < fst (samples ! Suc i) \<longrightarrow>
            evalDeriv_rounded Some samples x =
              Some (Inr ((snd (samples ! Suc i) - snd (samples ! i))
                         / (fst (samples ! Suc i) - fst (samples ! i))))
            \<and> eval_rounded Some samples x =
              Some (Inr (snd (samples ! i)
                         + (snd (samples ! Suc i) - snd (samples ! i))
                           / (fst (samples ! Suc i) - fst (samples ! i))
                           * (x - fst (samples ! i)))))"
proof (intro conjI allI impI)
  fix d dy
  assume "rnd 0 = Some 0
      \<and> rnd (fst (samples ! 1) - fst (samples ! 0)) = Some d \<and> d \<noteq> 0
      \<and> rnd (snd (samples ! 1) - snd (samples ! 0)) = Some dy
      \<and> rnd (snd (samples ! 0)) = Some (snd (samples ! 0))"
  then show "eval_rounded rnd samples (fst (samples ! 0)) = Some (Inr (snd (samples ! 0)))"
    using eval_rounded_first_knot [OF sorted len, of rnd d dy] by blast
next
  fix k d dy
  assume "0 < k \<and> k < length samples \<and> rnd 1 = Some 1
      \<and> rnd (fst (samples ! k) - fst (samples ! (k - 1))) = Some d \<and> d \<noteq> 0
      \<and> rnd (snd (samples ! k) - snd (samples ! (k - 1))) = Some dy
      \<and> rnd dy = Some dy"
  then show "eval_rounded rnd samples (fst (samples ! k)) =
      map_option Inr (rnd (snd (samples ! (k - 1)) + dy))"
    using eval_rounded_later_knot [OF sorted, of k rnd d dy] by blast
next
  fix i x
  assume "Suc i < length samples \<and> fst (samples ! i) < x \<and> x < fst (samples ! Suc i)"
  then have i: "Suc i < length samples" and lo: "fst (samples ! i) < x"
    and hi: "x \<le> fst (samples ! Suc i)"
    by simp_all
  show "evalDeriv_rounded rnd samples x =
      map_option Inr (slope_rounded rnd (samples ! i) (samples ! Suc i))"
    by (rule evalDeriv_rounded_half_open_segment [OF sorted i lo hi])
  show "eval_rounded rnd samples x =
      map_option Inr (interpolate_rounded rnd x (samples ! i) (samples ! Suc i))"
    by (rule eval_rounded_half_open_segment [OF sorted i lo hi])
next
  fix k assume "k < length samples"
  then show "eval_rounded Some samples (fst (samples ! k)) = Some (Inr (snd (samples ! k)))"
    using eval_rounded_exact(1) [OF sorted len] eval_knot [OF sorted len] by simp
next
  fix i x
  assume "Suc i < length samples \<and> fst (samples ! i) < x \<and> x < fst (samples ! Suc i)"
  then have i: "Suc i < length samples" and lo: "fst (samples ! i) < x"
    and hi: "x \<le> fst (samples ! Suc i)"
    by simp_all
  show "evalDeriv_rounded Some samples x =
      Some (Inr ((snd (samples ! Suc i) - snd (samples ! i))
                 / (fst (samples ! Suc i) - fst (samples ! i))))"
    using eval_rounded_exact(2) [OF sorted len]
      evalDeriv_half_open_segment [OF sorted i lo hi] by simp
  show "eval_rounded Some samples x =
      Some (Inr (snd (samples ! i)
                 + (snd (samples ! Suc i) - snd (samples ! i))
                   / (fst (samples ! Suc i) - fst (samples ! i))
                   * (x - fst (samples ! i))))"
    using eval_rounded_exact(1) [OF sorted len]
      eval_half_open_segment [OF sorted i lo hi] by simp
qed

theorem eval_rounded_knots_and_segments_witness:
  "sorted_wrt (<) (map fst ([(0, 0), (1/2, 1000), (1, 3000)] :: SamplePoints))
   \<and> 2 \<le> length ([(0, 0), (1/2, 1000), (1, 3000)] :: SamplePoints)
   \<and> eval_rounded fl64 [(0, 0), (1/2, 1000), (1, 3000)] 0 = Some (Inr 0)
   \<and> eval_rounded fl64 [(0, 0), (1/2, 1000), (1, 3000)] (1/2) = Some (Inr 1000)
   \<and> eval_rounded fl64 [(0, 0), (1/2, 1000), (1, 3000)] 1 = Some (Inr 3000)
   \<and> evalDeriv_rounded fl64 [(0, 0), (1/2, 1000), (1, 3000)] (3/4) = Some (Inr 4000)
   \<and> eval_rounded fl64 [(0, 0), (1/2, 1000), (1, 3000)] (3/4) = Some (Inr 2000)
   \<and> eval_rounded Some [(0, 0), (1/2, 1000), (1, 3000)] (1/2) = Some (Inr 1000)
   \<and> eval_rounded Some [(0, 0), (1/2, 1000), (1, 3000)] (3/4) = Some (Inr 2000)
   \<and> eval_rounded fl64
        [(1/2, 3602879701896397/9007199254740992), (3/4, 3602879701896397/36028797018963968)]
        (3/4) = Some (Inr (900719925474099/9007199254740992))"
proof -
  let ?T = "[(0, 0), (1/2, 1000), (1, 3000)] :: SamplePoints"
  let ?U = "[(1/2, 3602879701896397/9007199254740992),
             (3/4, 3602879701896397/36028797018963968)] :: SamplePoints"
  have u1: "sorted_wrt (<) (map fst ?U)" by simp
  have u2: "2 \<le> length ?U" by simp
  have s1: "fl64 (3602879701896397/36028797018963968 - 3602879701896397/9007199254740992)
        = Some (- 1351079888211149/4503599627370496)"
    by (simp add: fl64_simps)
  have s2: "fl64 (- 1351079888211149/4503599627370496)
        = Some (- 1351079888211149/4503599627370496)"
    by (simp add: fl64_simps)
  have s3: "fl64 (3602879701896397/9007199254740992 + - 1351079888211149/4503599627370496)
        = Some (900719925474099/9007199254740992)"
    by (simp add: fl64_simps)
  have h1: "sorted_wrt (<) (map fst ?T)" by simp
  have h2: "2 \<le> length ?T" by simp
  note th = eval_rounded_knots_and_segments [OF h1 h2]
  have r0: "fl64 0 = Some 0" and r1: "fl64 1 = Some 1" and rh: "fl64 (1/2) = Some (1/2)"
    and r1000: "fl64 1000 = Some 1000" and r2000: "fl64 2000 = Some 2000"
    and r3000: "fl64 3000 = Some 3000" and r4000: "fl64 4000 = Some 4000"
    and rq: "fl64 (1/4) = Some (1/4)"
    by (simp_all add: fl64_simps)
  have a: "eval_rounded fl64 ?T 0 = Some (Inr 0)"
    using th [of fl64, THEN conjunct1, rule_format, of "1/2" 1000] r0 rh r1000 by simp
  have b: "eval_rounded fl64 ?T (1/2) = Some (Inr 1000)"
    using th [of fl64, THEN conjunct2, THEN conjunct1, rule_format, of 1 "1/2" 1000]
      r1 rh r1000 by simp
  have c: "eval_rounded fl64 ?T 1 = Some (Inr 3000)"
    using th [of fl64, THEN conjunct2, THEN conjunct1, rule_format, of 2 "1/2" 2000]
      r1 rh r2000 r3000 by simp
  have d: "evalDeriv_rounded fl64 ?T (3/4) = Some (Inr 4000)
      \<and> eval_rounded fl64 ?T (3/4) = Some (Inr 2000)"
    using th [of fl64, THEN conjunct2, THEN conjunct2, THEN conjunct1, rule_format, of 1 "3/4"]
      rh rq r1000 r2000 r4000
    by (simp add: slope_rounded_def interpolate_rounded_def)
  have e: "eval_rounded Some ?T (1/2) = Some (Inr 1000)"
    using th [of fl64, THEN conjunct2, THEN conjunct2, THEN conjunct2, THEN conjunct1,
        rule_format, of 1] by simp
  have f: "eval_rounded Some ?T (3/4) = Some (Inr 2000)"
    using th [of fl64, THEN conjunct2, THEN conjunct2, THEN conjunct2, THEN conjunct2,
        rule_format, of 1 "3/4"] by simp
  have g: "eval_rounded fl64 ?U (3/4) = Some (Inr (900719925474099/9007199254740992))"
    using eval_rounded_knots_and_segments [OF u1 u2, of fl64, THEN conjunct2, THEN conjunct1,
        rule_format, of 1 "1/4" "- 1351079888211149/4503599627370496"]
      r1 rq s1 s2 s3 by simp
  show ?thesis using h1 h2 a b c d e f g by simp
qed

text \<open>
  C6. Below the first knot of the wetting table \<open>twoPhaseSatKrw\<close> returns the ordinate of
  the first point, above the last knot the ordinate of the last point, and
  \<open>twoPhaseSatDKrw_dSw\<close> returns zero in both cases. Between two neighbouring knots of a
  table with strictly increasing abscissae \<open>twoPhaseSatKrw\<close> is the linear interpolation
  of the two points. For the table \<open>[(0.2, 0), (1, 1)]\<close> the value at \<open>0.1\<close> is \<open>0\<close>, the
  derivative at \<open>0.1\<close> is \<open>0\<close>, and the value at \<open>0.6\<close> is \<open>0.5\<close>.

  The source tests \<open>Sw < front().first\<close> before \<open>Sw > back().first\<close>; the second result is
  stated for tables whose first abscissa is not above the last one.
\<close>

theorem twoPhaseSatKrw_clamps_and_interpolates:
  "(krwSamples params \<noteq> [] \<and> sw < fst (hd (krwSamples params)) \<longrightarrow>
      twoPhaseSatKrw params sw = Inr (snd (hd (krwSamples params)))
      \<and> twoPhaseSatDKrw_dSw params sw = Inr 0)
   \<and> (krwSamples params \<noteq> [] \<and> fst (hd (krwSamples params)) \<le> fst (last (krwSamples params))
        \<and> fst (last (krwSamples params)) < sw \<longrightarrow>
      twoPhaseSatKrw params sw = Inr (snd (last (krwSamples params)))
      \<and> twoPhaseSatDKrw_dSw params sw = Inr 0)
   \<and> (sorted_wrt (<) (map fst (krwSamples params)) \<and> Suc i < length (krwSamples params)
        \<and> fst (krwSamples params ! i) \<le> sw \<and> sw \<le> fst (krwSamples params ! Suc i) \<longrightarrow>
      twoPhaseSatKrw params sw =
        Inr (snd (krwSamples params ! i)
             + (snd (krwSamples params ! Suc i) - snd (krwSamples params ! i))
               * ((sw - fst (krwSamples params ! i))
                  / (fst (krwSamples params ! Suc i) - fst (krwSamples params ! i)))))"
proof (intro conjI impI)
  assume a: "krwSamples params \<noteq> [] \<and> sw < fst (hd (krwSamples params))"
  then show "twoPhaseSatKrw params sw = Inr (snd (hd (krwSamples params)))"
    by (cases "krwSamples params") (simp_all add: twoPhaseSatKrw_def front_of_def)
  from a show "twoPhaseSatDKrw_dSw params sw = Inr 0"
    by (cases "krwSamples params") (simp_all add: twoPhaseSatDKrw_dSw_def front_of_def)
next
  assume a: "krwSamples params \<noteq> []
      \<and> fst (hd (krwSamples params)) \<le> fst (last (krwSamples params))
      \<and> fst (last (krwSamples params)) < sw"
  then show "twoPhaseSatKrw params sw = Inr (snd (last (krwSamples params)))"
    by (cases "krwSamples params")
       (simp_all add: twoPhaseSatKrw_def front_of_def back_of_def)
  from a show "twoPhaseSatDKrw_dSw params sw = Inr 0"
    by (cases "krwSamples params")
       (simp_all add: twoPhaseSatDKrw_dSw_def front_of_def back_of_def)
next
  let ?ks = "krwSamples params"
  assume a: "sorted_wrt (<) (map fst ?ks) \<and> Suc i < length ?ks
      \<and> fst (?ks ! i) \<le> sw \<and> sw \<le> fst (?ks ! Suc i)"
  then have sorted: "sorted_wrt (<) (map fst ?ks)" and i: "Suc i < length ?ks"
    and lo: "fst (?ks ! i) \<le> sw" and hi: "sw \<le> fst (?ks ! Suc i)"
    by simp_all
  have len: "2 \<le> length ?ks" using i by simp
  have "fst (?ks ! 0) \<le> fst (?ks ! i)"
    using knots_le [OF sorted, of 0 i] i by simp
  then have first: "\<not> sw < fst (?ks ! 0)" using lo by simp
  have "fst (?ks ! Suc i) \<le> fst (?ks ! (length ?ks - 1))"
    using knots_le [OF sorted, of "Suc i" "length ?ks - 1"] i by simp
  then have top: "\<not> fst (last ?ks) < sw"
    using hi last_nth_nat [OF len] by simp
  have "twoPhaseSatKrw params sw = eval_fn ?ks sw"
    using first top front_of_nth [OF len] back_of_last [OF len]
    by (simp add: twoPhaseSatKrw_def)
  then show "twoPhaseSatKrw params sw =
        Inr (snd (?ks ! i)
             + (snd (?ks ! Suc i) - snd (?ks ! i))
               * ((sw - fst (?ks ! i)) / (fst (?ks ! Suc i) - fst (?ks ! i))))"
    using eval_closed_segment [OF sorted i lo hi] by simp
qed

theorem twoPhaseSatKrw_clamps_and_interpolates_witness:
  "twoPhaseSatKrw \<lparr>pcnwSamples = [(0, 0), (1/2, 1000), (1, 3000)],
      krwSamples = [(1/5, 0), (1, 1)], krnSamples = [(0, 1), (1, 0)]\<rparr> (1/10) = Inr 0
   \<and> twoPhaseSatDKrw_dSw \<lparr>pcnwSamples = [(0, 0), (1/2, 1000), (1, 3000)],
      krwSamples = [(1/5, 0), (1, 1)], krnSamples = [(0, 1), (1, 0)]\<rparr> (1/10) = Inr 0
   \<and> twoPhaseSatKrw \<lparr>pcnwSamples = [(0, 0), (1/2, 1000), (1, 3000)],
      krwSamples = [(1/5, 0), (1, 1)], krnSamples = [(0, 1), (1, 0)]\<rparr> (6/5) = Inr 1
   \<and> twoPhaseSatDKrw_dSw \<lparr>pcnwSamples = [(0, 0), (1/2, 1000), (1, 3000)],
      krwSamples = [(1/5, 0), (1, 1)], krnSamples = [(0, 1), (1, 0)]\<rparr> (6/5) = Inr 0
   \<and> twoPhaseSatKrw \<lparr>pcnwSamples = [(0, 0), (1/2, 1000), (1, 3000)],
      krwSamples = [(1/5, 0), (1, 1)], krnSamples = [(0, 1), (1, 0)]\<rparr> (3/5) = Inr (1/2)"
proof -
  let ?p = "\<lparr>pcnwSamples = [(0, 0), (1/2, 1000), (1, 3000)],
      krwSamples = [(1/5, 0), (1, 1)], krnSamples = [(0, 1), (1, 0)]\<rparr>"
  have "twoPhaseSatKrw ?p (1/10) = Inr 0 \<and> twoPhaseSatDKrw_dSw ?p (1/10) = Inr 0"
    using twoPhaseSatKrw_clamps_and_interpolates [of ?p "1/10" 0] by simp
  moreover have "twoPhaseSatKrw ?p (6/5) = Inr 1 \<and> twoPhaseSatDKrw_dSw ?p (6/5) = Inr 0"
    using twoPhaseSatKrw_clamps_and_interpolates [of ?p "6/5" 0] by simp
  moreover have "twoPhaseSatKrw ?p (3/5) = Inr (1/2)"
    using twoPhaseSatKrw_clamps_and_interpolates [of ?p "3/5" 0] by simp
  ultimately show ?thesis by simp
qed

text \<open>
  C7. For every parameter object, state and index arguments, each of
  \<open>dCapillaryPressures_dPressure\<close>, \<open>_dTemperature\<close>, \<open>_dMoleFraction\<close> and of
  \<open>dRelativePermeabilities_dPressure\<close>, \<open>_dTemperature\<close>, \<open>_dMoleFraction\<close> fills every entry
  of an output container of \<open>numPhases\<close> entries with zero, whatever the saturations are.
\<close>

theorem independent_axes_zero:
  assumes "length values = numPhases"
  shows "dCapillaryPressures_dPressure values params state pPhaseIdx = replicate numPhases 0
       \<and> dCapillaryPressures_dTemperature values params state = replicate numPhases 0
       \<and> dCapillaryPressures_dMoleFraction values params state phaseIdx compIdx
           = replicate numPhases 0
       \<and> dRelativePermeabilities_dPressure values params state pPhaseIdx = replicate numPhases 0
       \<and> dRelativePermeabilities_dTemperature values params state = replicate numPhases 0
       \<and> dRelativePermeabilities_dMoleFraction values params state phaseIdx compIdx
           = replicate numPhases 0"
  using zero_all_phases_replicate [OF assms]
  by (simp add: dCapillaryPressures_dPressure_def dCapillaryPressures_dTemperature_def
      dCapillaryPressures_dMoleFraction_def dRelativePermeabilities_dPressure_def
      dRelativePermeabilities_dTemperature_def dRelativePermeabilities_dMoleFraction_def)

theorem independent_axes_zero_witness:
  "length [7, 9 :: Scalar] = numPhases
   \<and> dCapillaryPressures_dPressure [7, 9]
        \<lparr>pcnwSamples = [(0, 0), (1/2, 1000), (1, 3000)],
         krwSamples = [(1/5, 0), (1, 1)], krnSamples = [(0, 1), (1, 0)]\<rparr>
        \<lparr>saturation = (\<lambda>phaseIdx. 1/4)\<rparr> 0 = [0, 0]
   \<and> dRelativePermeabilities_dMoleFraction [7, 9]
        \<lparr>pcnwSamples = [(0, 0), (1/2, 1000), (1, 3000)],
         krwSamples = [(1/5, 0), (1, 1)], krnSamples = [(0, 1), (1, 0)]\<rparr>
        \<lparr>saturation = (\<lambda>phaseIdx. 5)\<rparr> 1 0 = [0, 0]"
proof -
  have h: "length [7, 9 :: Scalar] = numPhases" by (simp add: numPhases_def)
  show ?thesis
    using h independent_axes_zero [OF h] by (simp add: numPhases_def numeral_2_eq_2)
qed

text \<open>
  C8. For every parameter object and every input, \<open>Sw\<close>, \<open>twoPhaseSatSw\<close>, \<open>Sn\<close>,
  \<open>twoPhaseSatSn\<close> and \<open>saturations\<close> fail with the logic error of an operation that is
  not implemented, and return no value. \<open>Sn\<close> and \<open>twoPhaseSatSn\<close> fail with the error of
  the function they call.
\<close>

theorem inverse_functions_unsupported:
  "Sw params fs = Inl (Logic_Error ''Not implemented: Sw()'')
   \<and> twoPhaseSatSw params pC = Inl (Logic_Error ''Not implemented: twoPhaseSatSw()'')
   \<and> Sn params fs = Inl (Logic_Error ''Not implemented: Sw()'')
   \<and> twoPhaseSatSn params pC = Inl (Logic_Error ''Not implemented: twoPhaseSatSw()'')
   \<and> saturations t values params fs = Inl (Logic_Error ''Not implemented: saturations()'')"
  by (simp add: Sw_def twoPhaseSatSw_def Sn_def twoPhaseSatSn_def saturations_def)

text \<open>
  C9. For every table with at least two points and every query \<open>x\<close>, the bisection of
  \<open>findSegmentIndex_\<close> ends and returns an index \<open>i\<close> with \<open>0 \<le> i \<le> size - 2\<close>; the
  indices \<open>i\<close> and \<open>i + 1\<close> that \<open>eval_\<close> and \<open>evalDeriv_\<close> read are inside the table; the
  two assertions of \<open>eval_\<close> hold whenever \<open>x\<close> lies between the first and the last
  abscissa; and both \<open>eval_\<close> and \<open>evalDeriv_\<close> return a value. No order of the abscissae
  is assumed. That the loop ends is the termination proof of \<open>bisection\<close>; that it reads
  inside the table is part of its returning an index at all.
\<close>

theorem evaluator_total_in_bounds:
  assumes len: "2 \<le> length samples"
  shows "\<exists>i. findSegmentIndex_fn samples x = Inr i
           \<and> 0 \<le> i \<and> i \<le> int (length samples) - 2
           \<and> at_idx samples i = Inr (samples ! nat i)
           \<and> at_idx samples (i + 1) = Inr (samples ! nat (i + 1))
           \<and> (fst (hd samples) \<le> x \<and> x \<le> fst (last samples) \<longrightarrow>
                fst (samples ! nat i) \<le> x \<and> x \<le> fst (samples ! nat (i + 1)))
           \<and> (\<exists>v. eval_fn samples x = Inr v)
           \<and> (\<exists>d. evalDeriv_fn samples x = Inr d)"
proof -
  have hd: "hd samples = samples ! 0"
    using len by (cases samples) simp_all
  obtain i where i: "findSegmentIndex_fn samples x = Inr i" "0 \<le> i"
      "i \<le> int (length samples) - 2"
      "fst (samples ! 0) \<le> x \<and> x \<le> fst (last samples) \<longrightarrow>
         fst (samples ! nat i) \<le> x \<and> x \<le> fst (samples ! nat (i + 1))"
    using findSegmentIndex_total [OF len, of x] by blast
  show ?thesis
    using i hd at_idx_segment [OF i(2,3)] eval_segment [OF len i(1)]
      evalDeriv_segment [OF len i(1)]
    by simp
qed

theorem evaluator_total_in_bounds_witness:
  "2 \<le> length ([(0, 0), (1/2, 1000), (1, 3000)] :: SamplePoints)
   \<and> (\<exists>i. findSegmentIndex_fn [(0, 0), (1/2, 1000), (1, 3000)] (3/4) = Inr i
         \<and> 0 \<le> i \<and> i \<le> 1
         \<and> (\<exists>v. eval_fn [(0, 0), (1/2, 1000), (1, 3000)] (3/4) = Inr v)
         \<and> (\<exists>d. evalDeriv_fn [(0, 0), (1/2, 1000), (1, 3000)] (3/4) = Inr d))"
proof -
  have h: "2 \<le> length ([(0, 0), (1/2, 1000), (1, 3000)] :: SamplePoints)" by simp
  show ?thesis
    using h evaluator_total_in_bounds [OF h, of "3/4"] by auto
qed

text \<open>
  C10. The claim: \<open>twoPhaseSatDPcnw_dSw\<close> asserts \<open>0 < Sw < 1\<close>; for every \<open>Sw\<close> in the open
  interval it returns the slope of the segment of the capillary-pressure table at \<open>Sw\<close>;
  and no other evaluation entry point has this restriction on the saturation.

  The overload \<open>dPcnw_dSw\<close> on a state passes the wetting saturation of the state to
  \<open>twoPhaseSatDPcnw_dSw\<close>, and so fails the same assertion: here for a state with
  \<open>Sw = 1\<close> and \<open>Sn = 0\<close>.
\<close>

theorem dPcnw_dSw_range_assertion_counterexample:
  "dPcnw_dSw \<lparr>wPhaseIdx = 0, nPhaseIdx = 1\<rparr>
     \<lparr>pcnwSamples = [(0, 0), (1/2, 1000), (1, 3000)],
      krwSamples = [(1/5, 0), (1, 1)], krnSamples = [(0, 1), (1, 0)]\<rparr>
     \<lparr>saturation = (\<lambda>phaseIdx. if phaseIdx = 0 then 1 else 0)\<rparr>
   = Inl (Assertion_Failure ''0 < Sw && Sw < 1'')"
  by (simp add: dPcnw_dSw_def twoPhaseSatDPcnw_dSw_def)

text \<open>
  C10, as amended: \<open>twoPhaseSatDPcnw_dSw\<close> asserts \<open>0 < Sw < 1\<close>, and outside the interval
  the assertion fails. For a capillary-pressure table with at least two points and
  strictly increasing abscissae and every \<open>Sw\<close> in the open interval it returns the
  slope of the segment of the table at \<open>Sw\<close>: of the segment with \<open>x\<^sub>i < Sw \<le> x\<^sub>i\<^sub>+\<^sub>1\<close>, of
  the first segment for \<open>Sw\<close> at or below the first knot, and of the last segment for \<open>Sw\<close>
  above the last knot. The overload \<open>dPcnw_dSw\<close> on a state calls it with the wetting
  saturation of the state and has the same restriction. No other evaluation entry point
  has it: for tables of at least two points, valid traits and an output container of
  \<open>numPhases\<close> entries, \<open>twoPhaseSatPcnw\<close>, \<open>pcnw\<close>, \<open>capillaryPressures\<close>,
  \<open>dCapillaryPressures_dSaturation\<close>, \<open>twoPhaseSatKrw\<close>, \<open>krw\<close>, \<open>twoPhaseSatDKrw_dSw\<close>,
  \<open>twoPhaseSatKrn\<close>, \<open>krn\<close>, \<open>twoPhaseSatDKrn_dSw\<close>, \<open>relativePermeabilities\<close> and
  \<open>dRelativePermeabilities_dSaturation\<close> return a value for every saturation.
\<close>

theorem twoPhaseSatDPcnw_dSw_slope_at_Sw:
  assumes sorted: "sorted_wrt (<) (map fst (pcnwSamples params))"
    and len: "2 \<le> length (pcnwSamples params)"
    and lenw: "2 \<le> length (krwSamples params)"
    and lenn: "2 \<le> length (krnSamples params)"
    and ok: "Traits_ok t" and vs: "length values = numPhases"
  shows "(0 < sw \<and> sw < 1 \<longrightarrow>
            (\<forall>i. Suc i < length (pcnwSamples params)
                 \<and> fst (pcnwSamples params ! i) < sw \<and> sw \<le> fst (pcnwSamples params ! Suc i) \<longrightarrow>
               twoPhaseSatDPcnw_dSw params sw =
                 Inr ((snd (pcnwSamples params ! Suc i) - snd (pcnwSamples params ! i))
                      / (fst (pcnwSamples params ! Suc i) - fst (pcnwSamples params ! i))))
          \<and> (sw \<le> fst (pcnwSamples params ! 0) \<longrightarrow>
               twoPhaseSatDPcnw_dSw params sw =
                 Inr ((snd (pcnwSamples params ! 1) - snd (pcnwSamples params ! 0))
                      / (fst (pcnwSamples params ! 1) - fst (pcnwSamples params ! 0))))
          \<and> (fst (last (pcnwSamples params)) < sw \<longrightarrow>
               twoPhaseSatDPcnw_dSw params sw =
                 Inr ((snd (pcnwSamples params ! (length (pcnwSamples params) - 1))
                         - snd (pcnwSamples params ! (length (pcnwSamples params) - 2)))
                      / (fst (pcnwSamples params ! (length (pcnwSamples params) - 1))
                         - fst (pcnwSamples params ! (length (pcnwSamples params) - 2))))))
       \<and> (\<not> (0 < sw \<and> sw < 1) \<longrightarrow>
            twoPhaseSatDPcnw_dSw params sw = Inl (Assertion_Failure ''0 < Sw && Sw < 1''))
       \<and> dPcnw_dSw t params state = twoPhaseSatDPcnw_dSw params (saturation state (wPhaseIdx t))
       \<and> (\<exists>v. twoPhaseSatPcnw params sw = Inr v)
       \<and> (\<exists>v. pcnw t params state = Inr v)
       \<and> (\<exists>r. capillaryPressures t values params state = Inr r)
       \<and> (\<exists>r. dCapillaryPressures_dSaturation t values params state satPhaseIdx = Inr r)
       \<and> (\<exists>v. twoPhaseSatKrw params sw = Inr v)
       \<and> (\<exists>v. krw t params state = Inr v)
       \<and> (\<exists>v. twoPhaseSatDKrw_dSw params sw = Inr v)
       \<and> (\<exists>v. twoPhaseSatKrn params sw = Inr v)
       \<and> (\<exists>v. krn t params state = Inr v)
       \<and> (\<exists>v. twoPhaseSatDKrn_dSw params sw = Inr v)
       \<and> (\<exists>r. relativePermeabilities t values params state = Inr r)
       \<and> (\<exists>r. dRelativePermeabilities_dSaturation t values params state satPhaseIdx = Inr r)"
proof -
  let ?pc = "pcnwSamples params"
  have A: "0 < sw \<and> sw < 1 \<longrightarrow>
            (\<forall>i. Suc i < length ?pc \<and> fst (?pc ! i) < sw \<and> sw \<le> fst (?pc ! Suc i) \<longrightarrow>
               twoPhaseSatDPcnw_dSw params sw =
                 Inr ((snd (?pc ! Suc i) - snd (?pc ! i)) / (fst (?pc ! Suc i) - fst (?pc ! i))))
          \<and> (sw \<le> fst (?pc ! 0) \<longrightarrow>
               twoPhaseSatDPcnw_dSw params sw =
                 Inr ((snd (?pc ! 1) - snd (?pc ! 0)) / (fst (?pc ! 1) - fst (?pc ! 0))))
          \<and> (fst (last ?pc) < sw \<longrightarrow>
               twoPhaseSatDPcnw_dSw params sw =
                 Inr ((snd (?pc ! (length ?pc - 1)) - snd (?pc ! (length ?pc - 2)))
                      / (fst (?pc ! (length ?pc - 1)) - fst (?pc ! (length ?pc - 2)))))"
  proof (intro impI conjI allI)
    fix i
    assume r: "0 < sw \<and> sw < 1"
      and "Suc i < length ?pc \<and> fst (?pc ! i) < sw \<and> sw \<le> fst (?pc ! Suc i)"
    then have "Suc i < length ?pc" "fst (?pc ! i) < sw" "sw \<le> fst (?pc ! Suc i)" by simp_all
    from evalDeriv_half_open_segment [OF sorted this] r
    show "twoPhaseSatDPcnw_dSw params sw =
            Inr ((snd (?pc ! Suc i) - snd (?pc ! i)) / (fst (?pc ! Suc i) - fst (?pc ! i)))"
      by (simp add: twoPhaseSatDPcnw_dSw_def)
  next
    assume r: "0 < sw \<and> sw < 1" and "sw \<le> fst (?pc ! 0)"
    from evalDeriv_at_or_below_first [OF sorted len this(2)] r
    show "twoPhaseSatDPcnw_dSw params sw =
            Inr ((snd (?pc ! 1) - snd (?pc ! 0)) / (fst (?pc ! 1) - fst (?pc ! 0)))"
      by (simp add: twoPhaseSatDPcnw_dSw_def)
  next
    assume r: "0 < sw \<and> sw < 1" and "fst (last ?pc) < sw"
    from evalDeriv_above_last [OF len this(2)] r
    show "twoPhaseSatDPcnw_dSw params sw =
            Inr ((snd (?pc ! (length ?pc - 1)) - snd (?pc ! (length ?pc - 2)))
                 / (fst (?pc ! (length ?pc - 1)) - fst (?pc ! (length ?pc - 2))))"
      by (simp add: twoPhaseSatDPcnw_dSw_def)
  qed
  have B: "\<not> (0 < sw \<and> sw < 1) \<longrightarrow>
            twoPhaseSatDPcnw_dSw params sw = Inl (Assertion_Failure ''0 < Sw && Sw < 1'')"
    by (simp add: twoPhaseSatDPcnw_dSw_def)
  have C: "dPcnw_dSw t params state = twoPhaseSatDPcnw_dSw params (saturation state (wPhaseIdx t))"
    by (simp add: dPcnw_dSw_def)
  have D1: "\<exists>v. twoPhaseSatPcnw params sw = Inr v"
    using evalDeriv_returns [OF len, of sw] by (simp add: twoPhaseSatPcnw_def)
  have D2: "\<exists>v. pcnw t params state = Inr v"
    using evalDeriv_returns [OF len, of "saturation state (wPhaseIdx t)"]
    by (simp add: pcnw_def twoPhaseSatPcnw_def)
  have D6: "\<exists>v. krw t params state = Inr v"
    using twoPhaseSatKrw_returns [OF lenw] by (simp add: krw_def)
  have D9: "\<exists>v. krn t params state = Inr v"
    using twoPhaseSatKrn_returns [OF lenn] by (simp add: krn_def)
  show ?thesis
    using A B C D1 D2 capillaryPressures_returns [OF len]
      dCapillaryPressures_dSaturation_returns [OF len] twoPhaseSatKrw_returns [OF lenw] D6
      twoPhaseSatDKrw_dSw_returns [OF lenw] twoPhaseSatKrn_returns [OF lenn] D9
      twoPhaseSatDKrn_dSw_returns [OF lenw lenn] relativePermeabilities_returns [OF lenw lenn]
      dRelativePermeabilities_dSaturation_returns [OF lenw]
    by (intro conjI) blast+
qed

theorem twoPhaseSatDPcnw_dSw_slope_at_Sw_witness:
  "sorted_wrt (<) (map fst ([(0, 0), (1/2, 1000), (1, 3000)] :: SamplePoints))
   \<and> Traits_ok \<lparr>wPhaseIdx = 0, nPhaseIdx = 1\<rparr> \<and> length [7, 9 :: Scalar] = numPhases
   \<and> twoPhaseSatDPcnw_dSw \<lparr>pcnwSamples = [(0, 0), (1/2, 1000), (1, 3000)],
         krwSamples = [(1/5, 0), (1, 1)], krnSamples = [(0, 1), (1, 0)]\<rparr> (1/4) = Inr 2000
   \<and> twoPhaseSatDPcnw_dSw \<lparr>pcnwSamples = [(0, 0), (1/2, 1000), (1, 3000)],
         krwSamples = [(1/5, 0), (1, 1)], krnSamples = [(0, 1), (1, 0)]\<rparr> (3/4) = Inr 4000
   \<and> twoPhaseSatDPcnw_dSw \<lparr>pcnwSamples = [(0, 0), (1/2, 1000), (1, 3000)],
         krwSamples = [(1/5, 0), (1, 1)], krnSamples = [(0, 1), (1, 0)]\<rparr> (- 1/10)
       = Inl (Assertion_Failure ''0 < Sw && Sw < 1'')
   \<and> (\<exists>v. twoPhaseSatPcnw \<lparr>pcnwSamples = [(0, 0), (1/2, 1000), (1, 3000)],
         krwSamples = [(1/5, 0), (1, 1)], krnSamples = [(0, 1), (1, 0)]\<rparr> (- 1/10) = Inr v)
   \<and> (\<exists>r. dCapillaryPressures_dSaturation \<lparr>wPhaseIdx = 0, nPhaseIdx = 1\<rparr> [7, 9]
         \<lparr>pcnwSamples = [(0, 0), (1/2, 1000), (1, 3000)],
          krwSamples = [(1/5, 0), (1, 1)], krnSamples = [(0, 1), (1, 0)]\<rparr>
         \<lparr>saturation = (\<lambda>phaseIdx. if phaseIdx = 0 then 6/5 else - 1/5)\<rparr> 0 = Inr r)"
proof -
  let ?p = "\<lparr>pcnwSamples = [(0, 0), (1/2, 1000), (1, 3000)],
         krwSamples = [(1/5, 0), (1, 1)], krnSamples = [(0, 1), (1, 0)]\<rparr>"
  let ?t = "\<lparr>wPhaseIdx = 0, nPhaseIdx = 1\<rparr>"
  let ?s = "\<lparr>saturation = (\<lambda>phaseIdx. if phaseIdx = 0 then 6/5 else - 1/5)\<rparr>"
  have h1: "sorted_wrt (<) (map fst (pcnwSamples ?p))" by simp
  have h2: "2 \<le> length (pcnwSamples ?p)" by simp
  have h3: "2 \<le> length (krwSamples ?p)" by simp
  have h4: "2 \<le> length (krnSamples ?p)" by simp
  have h5: "Traits_ok ?t" by (simp add: Traits_ok_def numPhases_def)
  have h6: "length [7, 9 :: Scalar] = numPhases" by (simp add: numPhases_def)
  note th = twoPhaseSatDPcnw_dSw_slope_at_Sw [OF h1 h2 h3 h4 h5 h6]
  have a: "twoPhaseSatDPcnw_dSw ?p (1/4) = Inr 2000"
    using conjunct1 [OF th [of "1/4"], rule_format, THEN conjunct1, rule_format, of 0] by simp
  have b: "twoPhaseSatDPcnw_dSw ?p (3/4) = Inr 4000"
    using conjunct1 [OF th [of "3/4"], rule_format, THEN conjunct1, rule_format, of 1] by simp
  have c: "twoPhaseSatDPcnw_dSw ?p (- 1/10) = Inl (Assertion_Failure ''0 < Sw && Sw < 1'')"
    using th [of "- 1/10"] by simp
  have d: "\<exists>v. twoPhaseSatPcnw ?p (- 1/10) = Inr v"
    using th [of "- 1/10"] by blast
  have e: "\<exists>r. dCapillaryPressures_dSaturation ?t [7, 9] ?p ?s 0 = Inr r"
    using th [of "- 1/10" ?s 0] by blast
  show ?thesis using h1 h5 h6 a b c d e by simp
qed

end
